theory Spec2Isabelle
  imports Complex_Main "HOL-Library.AList" "HOL-Library.Sublist"
begin

section \<open>Python values\<close>

text \<open>
  The integration handles decoded JSON documents throughout: device attribute trees,
  the params sub-trees of pushes and the frames of the socket. A value is a tree; a
  \<^verbatim>\<open>dict\<close> is an association list in insertion order, as Python keeps it, and its keys
  are strings, as JSON has them. Numbers are Python's unbounded integers (a number
  with a fraction is not a value of the model); a value never shares a sub-object with
  another value.
\<close>

datatype pyval =
    PNone
  | PBool bool
  | PInt int
  | PStr string
  | PList "pyval list"
  | PDict "(string \<times> pyval) list"

type_synonym pydict = "(string \<times> pyval) list"

datatype py_error = KeyError | TypeError | ValueError | AttributeError | ConnectionError

text \<open>
  \<^verbatim>\<open>d[k] = v\<close>: an existing key keeps its position, a new key goes last.
  \<^verbatim>\<open>d.pop(k)\<close> removes the entry. \<^verbatim>\<open>k in d\<close> and \<^verbatim>\<open>d[k]\<close> are \<^const>\<open>map_of\<close>.
\<close>

definition setitem :: "(string \<times> 'v) list \<Rightarrow> string \<Rightarrow> 'v \<Rightarrow> (string \<times> 'v) list" where
  "setitem d k v = AList.update k v d"

definition pop :: "(string \<times> 'v) list \<Rightarrow> string \<Rightarrow> (string \<times> 'v) list" where
  "pop d k = AList.delete k d"

text \<open>The invariant of the representation: no key occurs twice, at any depth.\<close>

fun wf_val :: "pyval \<Rightarrow> bool" where
  "wf_val (PDict kvs) = (distinct (map fst kvs) \<and> list_all (\<lambda>kv. wf_val (snd kv)) kvs)"
| "wf_val (PList xs) = list_all wf_val xs"
| "wf_val _ = True"

text \<open>\<^verbatim>\<open>isinstance(v, numbers.Number)\<close>: \<^verbatim>\<open>bool\<close> is a subclass of \<^verbatim>\<open>int\<close>.\<close>

fun is_number :: "pyval \<Rightarrow> bool" where
  "is_number (PInt _) = True"
| "is_number (PBool _) = True"
| "is_number _ = False"

text \<open>The integer a number stands for (\<^verbatim>\<open>True\<close> is 1).\<close>

fun number_value :: "pyval \<Rightarrow> int" where
  "number_value (PInt i) = i"
| "number_value (PBool b) = (if b then 1 else 0)"
| "number_value _ = 0"

text \<open>\<^verbatim>\<open>bool(v)\<close>, Python's truth value.\<close>

fun truthy :: "pyval \<Rightarrow> bool" where
  "truthy PNone = False"
| "truthy (PBool b) = b"
| "truthy (PInt i) = (i \<noteq> 0)"
| "truthy (PStr s) = (s \<noteq> [])"
| "truthy (PList xs) = (xs \<noteq> [])"
| "truthy (PDict d) = (d \<noteq> [])"

text \<open>Lists and dicts are unhashable: using one as a dict key raises \<^verbatim>\<open>TypeError\<close>.\<close>

fun hashable :: "pyval \<Rightarrow> bool" where
  "hashable (PList _) = False"
| "hashable (PDict _) = False"
| "hashable _ = True"

subsection \<open>Decimal rendering of integers\<close>

text \<open>\<^verbatim>\<open>str(i)\<close> and \<^verbatim>\<open>f"{i}"\<close> for an \<^verbatim>\<open>int\<close>.\<close>

definition digit_char :: "nat \<Rightarrow> char" where
  "digit_char d = ''0123456789'' ! (d mod 10)"

fun digits :: "nat \<Rightarrow> string" where
  "digits n = (if n < 10 then [digit_char n] else digits (n div 10) @ [digit_char (n mod 10)])"

declare digits.simps [simp del]

definition str_int :: "int \<Rightarrow> string" where
  "str_int i = (if i < 0 then CHR ''-'' # digits (nat (- i)) else digits (nat i))"

text \<open>The inverse reading of a digit string, used to show that rendering loses nothing.\<close>

definition digit_val :: "char \<Rightarrow> nat" where
  "digit_val c = of_char c - 48"

definition digits_val :: "string \<Rightarrow> nat" where
  "digits_val s = foldl (\<lambda>a c. 10 * a + digit_val c) 0 s"

section \<open>utils.py\<close>

subsection \<open>deep\_get\<close>

text \<open>
  A path element is a string or an integer. \<^verbatim>\<open>current[key]\<close> on a dict raises
  \<^verbatim>\<open>KeyError\<close> for a missing key (an integer is never a key of a JSON object), on a
  list it raises \<^verbatim>\<open>IndexError\<close> out of range and \<^verbatim>\<open>TypeError\<close> for a string, and
  counts a negative index from the end. On any other value the code falls back to
  \<^verbatim>\<open>getattr\<close>, which raises \<^verbatim>\<open>AttributeError\<close> for every path element this
  integration uses (none is a method name of \<^verbatim>\<open>str\<close>, \<^verbatim>\<open>int\<close>, \<^verbatim>\<open>bool\<close> or
  \<^verbatim>\<open>None\<close>) and \<^verbatim>\<open>TypeError\<close> for an integer. All four exceptions are caught
  and make \<^verbatim>\<open>deep_get\<close> return the default; \<open>None\<close> below is that case.
  \<open>KOther\<close> is a path element that is neither (a \<^verbatim>\<open>None\<close>, a list, a dict).
\<close>

datatype path_key = KStr string | KInt int | KOther

definition list_getitem :: "pyval list \<Rightarrow> int \<Rightarrow> pyval option" where
  "list_getitem xs i =
     (if 0 \<le> i \<and> i < int (length xs) then Some (xs ! nat i)
      else if i < 0 \<and> - int (length xs) \<le> i then Some (xs ! nat (int (length xs) + i))
      else None)"

fun subscript :: "pyval \<Rightarrow> path_key \<Rightarrow> pyval option" where
  "subscript (PDict d) (KStr k) = map_of d k"
| "subscript (PList xs) (KInt i) = list_getitem xs i"
| "subscript _ _ = None"

fun deep_get :: "pyval \<Rightarrow> path_key list \<Rightarrow> pyval \<Rightarrow> pyval" where
  "deep_get current [] dflt = current"
| "deep_get current (key # path) dflt =
     (case subscript current key of
        None \<Rightarrow> dflt
      | Some nxt \<Rightarrow> deep_get nxt path dflt)"

definition get_device_uiid :: "pydict \<Rightarrow> pyval" where
  "get_device_uiid device =
     deep_get (PDict device) [KStr ''itemData'', KStr ''extra'', KStr ''uiid''] PNone"

subsection \<open>merge\<close>

text \<open>
  \<^verbatim>\<open>merge(origin_dict, source_dict)\<close> walks the items of the source in order and
  mutates the origin in place; the model returns the origin as it is after the walk.
  The recursive call mutates the nested dict \<^verbatim>\<open>origin_dict[key]\<close>, which stays where
  it is in the origin.
\<close>

fun merge :: "pydict \<Rightarrow> pydict \<Rightarrow> pydict" where
  "merge origin_dict [] = origin_dict"
| "merge origin_dict ((key, val) # rest) =
     merge
       (case map_of origin_dict key of
          Some (PDict sub) \<Rightarrow>
            (case val of
               PDict src \<Rightarrow> setitem origin_dict key (PDict (merge sub src))
             | _ \<Rightarrow> setitem origin_dict key val)
        | _ \<Rightarrow> setitem origin_dict key val)
       rest"

text \<open>
  What one pass of the loop body leaves under its key, and the pass itself; both are
  only used to state and prove properties of \<^const>\<open>merge\<close>.
\<close>

definition merged_value :: "pyval option \<Rightarrow> pyval \<Rightarrow> pyval" where
  "merged_value old new =
     (case old of
        Some (PDict sub) \<Rightarrow> (case new of PDict src \<Rightarrow> PDict (merge sub src) | _ \<Rightarrow> new)
      | _ \<Rightarrow> new)"

definition merge_step :: "string \<times> pyval \<Rightarrow> pydict \<Rightarrow> pydict" where
  "merge_step kv d = setitem d (fst kv) (merged_value (map_of d (fst kv)) (snd kv))"

subsection \<open>gen\_event\_callback\_key\<close>

text \<open>
  \<^verbatim>\<open>f"{component}_{device_id}_{outlet}"\<close> with the default component; the outlet is
  a number where the coordinator calls it.
\<close>

fun format_number :: "pyval \<Rightarrow> string" where
  "format_number (PInt i) = str_int i"
| "format_number (PBool b) = (if b then ''True'' else ''False'')"
| "format_number _ = []"

definition gen_event_callback_key :: "string \<Rightarrow> pyval \<Rightarrow> string" where
  "gen_event_callback_key device_id outlet =
     ''event'' @ ''_'' @ device_id @ ''_'' @ format_number outlet"

section \<open>uiid/uiid.py: the base adapter\<close>

text \<open>
  An adapter is stateless but for \<^verbatim>\<open>self.uiid\<close>, so its methods take the uiid as
  their first argument. \<^verbatim>\<open>self.uiid in UIIDS\<close> compares with \<^verbatim>\<open>==\<close>, under which
  only a number can equal a member of the list.
\<close>

definition MULTIPLE_SINGLE_PROTOCOL_UIIDS :: "int list" where
  "MULTIPLE_SINGLE_PROTOCOL_UIIDS = [191]"

definition uiid_in :: "pyval \<Rightarrow> int list \<Rightarrow> bool" where
  "uiid_in uiid uiids = (is_number uiid \<and> number_value uiid \<in> set uiids)"

definition gen_control_switch_params :: "pyval \<Rightarrow> bool \<Rightarrow> pydict" where
  "gen_control_switch_params uiid is_on =
     (let target = (if is_on then ''on'' else ''off'') in
      if uiid_in uiid MULTIPLE_SINGLE_PROTOCOL_UIIDS then
        [(''switches'',
          PList (map (\<lambda>i. PDict [(''switch'', PStr (if i = 0 then target else ''off'')),
                                  (''outlet'', PInt i)])
                     [0, 1, 2, 3]))]
      else [(''switch'', PStr target)])"

subsection \<open>Python's numeric builtins\<close>

text \<open>
  \<^verbatim>\<open>round(x)\<close> rounds to the nearest integer, a tie to the even one.
  \<^verbatim>\<open>float(v)\<close> and \<^verbatim>\<open>int(v)\<close> take a number as it is, parse a string (the
  parser is a parameter, \<open>None\<close> where Python raises \<^verbatim>\<open>ValueError\<close>) and raise
  \<^verbatim>\<open>TypeError\<close> for \<^verbatim>\<open>None\<close>, a list or a dict. A float is carried as the
  rational it stands for. Binary floating-point arithmetic is not modelled: where the
  code computes on floats, in \<^verbatim>\<open>round(float(v) / 100, 1)\<close> of the temperature and
  humidity readers, the computation is a parameter of the model
  (\<open>div100_round1\<close>).
\<close>

definition py_round :: "rat \<Rightarrow> int" where
  "py_round x =
     (let f = \<lfloor>x\<rfloor>; r = x - of_int f
      in if r < 1 / 2 then f else if 1 / 2 < r then f + 1 else if even f then f else f + 1)"

fun py_float :: "(string \<Rightarrow> rat option) \<Rightarrow> pyval \<Rightarrow> py_error + rat" where
  "py_float float_of_str (PInt i) = Inr (of_int i)"
| "py_float float_of_str (PBool b) = Inr (if b then 1 else 0)"
| "py_float float_of_str (PStr s) =
     (case float_of_str s of None \<Rightarrow> Inl ValueError | Some x \<Rightarrow> Inr x)"
| "py_float float_of_str _ = Inl TypeError"

fun py_int :: "(string \<Rightarrow> int option) \<Rightarrow> pyval \<Rightarrow> py_error + int" where
  "py_int int_of_str (PInt i) = Inr i"
| "py_int int_of_str (PBool b) = Inr (if b then 1 else 0)"
| "py_int int_of_str (PStr s) =
     (case int_of_str s of None \<Rightarrow> Inl ValueError | Some i \<Rightarrow> Inr i)"
| "py_int int_of_str _ = Inl TypeError"

subsection \<open>The generic readers\<close>

definition get_rssi_value :: "pydict \<Rightarrow> pyval" where
  "get_rssi_value device =
     deep_get (PDict device) [KStr ''itemData'', KStr ''params'', KStr ''rssi''] PNone"

definition get_temperature_value ::
    "(string \<Rightarrow> rat option) \<Rightarrow> (rat \<Rightarrow> rat) \<Rightarrow> pydict \<Rightarrow> py_error + rat option" where
  "get_temperature_value float_of_str div100_round1 device =
     (let str_value =
        deep_get (PDict device) [KStr ''itemData'', KStr ''params'', KStr ''temperature''] PNone
      in if str_value \<noteq> PNone then
           (case py_float float_of_str str_value of
              Inl e \<Rightarrow> Inl e
            | Inr x \<Rightarrow> Inr (Some (div100_round1 x)))
         else Inr None)"

definition get_humidity_value ::
    "(string \<Rightarrow> rat option) \<Rightarrow> (rat \<Rightarrow> rat) \<Rightarrow> pydict \<Rightarrow> py_error + rat option" where
  "get_humidity_value float_of_str div100_round1 device =
     (let str_value =
        deep_get (PDict device) [KStr ''itemData'', KStr ''params'', KStr ''humidity''] PNone
      in if str_value \<noteq> PNone then
           (case py_float float_of_str str_value of
              Inl e \<Rightarrow> Inl e
            | Inr x \<Rightarrow> Inr (Some (div100_round1 x)))
         else Inr None)"

definition get_battery_value ::
    "(string \<Rightarrow> int option) \<Rightarrow> pydict \<Rightarrow> py_error + int option" where
  "get_battery_value int_of_str device =
     (let val =
        deep_get (PDict device) [KStr ''itemData'', KStr ''params'', KStr ''battery''] PNone
      in if is_number val then Inr (Some (number_value val))
         else (case py_int int_of_str val of
                 Inl e \<Rightarrow> Inl e
               | Inr i \<Rightarrow> Inr (Some i)))"

section \<open>uiid/uiid\_104.py: the light adapter\<close>

text \<open>
  The adapter imports \<^verbatim>\<open>deep_get\<close> and \<^verbatim>\<open>map_value_general\<close> from uiid/utils.py,
  which is not among the sources.
\<close>

text \<open>
  Modelled from the spec: \<^verbatim>\<open>deep_get\<close> of uiid/utils.py. The spec has one reader of
  nested attribute trees only; it is taken to be the function of the same name in
  utils.py, which the base adapter imports.
\<close>

definition uiid_deep_get :: "pyval \<Rightarrow> path_key list \<Rightarrow> pyval \<Rightarrow> pyval" where
  "uiid_deep_get = deep_get"

text \<open>
  Modelled from the spec: \<^verbatim>\<open>map_value_general\<close> of uiid/utils.py. The spec calls it a
  linear remap between the device's native numeric range and the external-facing
  range; it is the line through the two end points, computed exactly (a float is the
  rational it stands for). It raises nothing, so the \<^verbatim>\<open>except ValueError\<close> branch
  of its callers is never taken.
\<close>

definition map_value_general :: "rat \<Rightarrow> rat \<times> rat \<Rightarrow> rat \<times> rat \<Rightarrow> rat" where
  "map_value_general x from_range to_range =
     fst to_range +
       (x - fst from_range) * (snd to_range - fst to_range) / (snd from_range - fst from_range)"

definition ewelink_brightness_range :: "rat \<times> rat" where
  "ewelink_brightness_range = (1, 100)"

definition ha_brightness_range :: "rat \<times> rat" where
  "ha_brightness_range = (1, 255)"

text \<open>A value used as a path element of \<^const>\<open>uiid_deep_get\<close>.\<close>

fun path_key_of :: "pyval \<Rightarrow> path_key" where
  "path_key_of (PStr s) = KStr s"
| "path_key_of (PInt i) = KInt i"
| "path_key_of (PBool b) = KInt (if b then 1 else 0)"
| "path_key_of _ = KOther"

definition get_ltype :: "pydict \<Rightarrow> pyval" where
  "get_ltype device =
     uiid_deep_get (PDict device) [KStr ''itemData'', KStr ''params'', KStr ''ltype''] (PStr ''white'')"

definition get_brightess :: "pydict \<Rightarrow> int option" where
  "get_brightess device =
     (let ltype = get_ltype device;
          br = uiid_deep_get (PDict device)
                 [KStr ''itemData'', KStr ''params'', path_key_of ltype, KStr ''br''] PNone
      in if is_number br then
           Some (py_round (map_value_general (of_int (number_value br))
                             ewelink_brightness_range ha_brightness_range))
         else None)"

text \<open>\<^verbatim>\<open>d.get(k, default)\<close>.\<close>

definition dict_get :: "pydict \<Rightarrow> string \<Rightarrow> pyval \<Rightarrow> pyval" where
  "dict_get d k dflt = (case map_of d k of None \<Rightarrow> dflt | Some v \<Rightarrow> v)"

definition gen_control_brightness_params :: "pydict \<Rightarrow> int \<Rightarrow> py_error + pydict" where
  "gen_control_brightness_params device brightness =
     (let ltype = get_ltype device;
          ewelinl_br = py_round (map_value_general (of_int brightness)
                                   ha_brightness_range ewelink_brightness_range)
      in if ltype = PStr ''color'' then
           (case uiid_deep_get (PDict device)
                   [KStr ''itemData'', KStr ''params'', KStr ''color''] (PDict []) of
              PDict ewelink_color \<Rightarrow>
                Inr [(''ltype'', ltype),
                     (''color'', PDict [(''br'', PInt ewelinl_br),
                                        (''r'', dict_get ewelink_color ''r'' (PInt 100)),
                                        (''g'', dict_get ewelink_color ''g'' (PInt 100)),
                                        (''b'', dict_get ewelink_color ''b'' (PInt 100))])]
            | _ \<Rightarrow> Inl AttributeError)
         else
           Inr [(''ltype'', ltype),
                (''white'', PDict [(''br'', PInt ewelinl_br),
                                   (''ct'', uiid_deep_get (PDict device)
                                      [KStr ''itemData'', KStr ''params'', KStr ''white'', KStr ''ct'']
                                      (PInt 100))])])"

section \<open>uiid/\_\_init\_\_.py and uiid/uiid\_174.py\<close>

text \<open>
  \<^verbatim>\<open>get_uiid_instance(uiid)\<close> looks the uiid up in two dicts, which raises
  \<^verbatim>\<open>TypeError\<close> for an unhashable uiid. Of the registered adapters only
  \<^verbatim>\<open>Uiid174\<close> has \<^verbatim>\<open>event_types\<close>; the result says whether the adapter found has
  a non-empty list of them.
\<close>

definition has_event_types :: "pyval \<Rightarrow> py_error + bool" where
  "has_event_types uiid =
     (if \<not> hashable uiid then Inl TypeError else Inr (uiid = PInt 174))"

section \<open>coordinator.py\<close>

text \<open>
  The coordinator owns the device store \<^verbatim>\<open>data\<close> (device id to attribute tree) and
  the table of event handlers. A handler is a callback of the event entity; the model
  names it by a number and records each call in \<open>fired\<close>. \<open>published\<close> counts the
  calls of \<^verbatim>\<open>async_set_updated_data\<close>. An exception leaves the coordinator as it
  was when it was raised; the functions return that state with the exception.
\<close>

record coordinator =
  data :: "(string \<times> pydict) list"
  event_handler_map :: "(string \<times> nat option) list"
  fired :: "(nat \<times> pyval \<times> pyval) list"
  published :: nat

definition call_event_handler ::
    "coordinator \<Rightarrow> string \<Rightarrow> pyval \<Rightarrow> py_error + coordinator" where
  "call_event_handler c device_id params =
     (let outlet = deep_get params [KStr ''outlet''] (PInt 0);
          key = deep_get params [KStr ''key''] PNone
      in if is_number outlet \<and> is_number key then
           (case map_of (event_handler_map c) (gen_event_callback_key device_id outlet) of
              None \<Rightarrow> Inl KeyError
            | Some None \<Rightarrow> Inr c
            | Some (Some event_handler) \<Rightarrow>
                Inr (c\<lparr>fired := fired c @ [(event_handler, outlet, key)]\<rparr>))
         else Inr c)"

definition merge_into_device :: "coordinator \<Rightarrow> string \<Rightarrow> pydict \<Rightarrow> pydict \<Rightarrow> coordinator" where
  "merge_into_device c device_id device source =
     c\<lparr>data := setitem (data c) device_id (merge device source),
       published := Suc (published c)\<rparr>"

definition update_entity_state ::
    "coordinator \<Rightarrow> pyval \<Rightarrow> pyval \<Rightarrow> coordinator \<times> py_error option" where
  "update_entity_state c device_id params =
     (case device_id of
        PStr did \<Rightarrow>
          (case map_of (data c) did of
             None \<Rightarrow> (c, None)
           | Some device \<Rightarrow>
               (let uiid = get_device_uiid device in
                if uiid = PNone then (c, None)
                else
                  (case has_event_types uiid of
                     Inl e \<Rightarrow> (c, Some e)
                   | Inr evs \<Rightarrow>
                       (case (if evs then call_event_handler c did params else Inr c) of
                          Inl e \<Rightarrow> (c, Some e)
                        | Inr c' \<Rightarrow>
                            (merge_into_device c' did device
                               [(''itemData'', PDict [(''params'', params)])], None)))))
      | PList _ \<Rightarrow> (c, Some TypeError)
      | PDict _ \<Rightarrow> (c, Some TypeError)
      | _ \<Rightarrow> (c, None))"

definition update_entity_available ::
    "coordinator \<Rightarrow> pyval \<Rightarrow> pyval \<Rightarrow> coordinator \<times> py_error option" where
  "update_entity_available c device_id online =
     (case device_id of
        PStr did \<Rightarrow>
          (case map_of (data c) did of
             None \<Rightarrow> (c, None)
           | Some device \<Rightarrow>
               (merge_into_device c did device
                  [(''itemData'', PDict [(''online'', PBool (truthy online))])], None))
      | PList _ \<Rightarrow> (c, Some TypeError)
      | PDict _ \<Rightarrow> (c, Some TypeError)
      | _ \<Rightarrow> (c, None))"

section \<open>websocket.py\<close>

text \<open>
  The constants of const.py, which is not among the sources, are parameters of the
  model. So is \<^verbatim>\<open>repr\<close> of a list or a dict, which \<^verbatim>\<open>str()\<close> falls back to.
\<close>

record ws_consts =
  WS_MSG_ACTION :: string
  WS_MSG_ACTION_UPDATE :: string
  WS_MSG_ACTION_SYSMSG :: string
  WS_MSG_ACTION_USER_ONLINE :: string
  WS_USER_AGENT :: string

fun py_str :: "(pyval \<Rightarrow> string) \<Rightarrow> pyval \<Rightarrow> string" where
  "py_str repr PNone = ''None''"
| "py_str repr (PBool b) = (if b then ''True'' else ''False'')"
| "py_str repr (PInt i) = str_int i"
| "py_str repr (PStr s) = s"
| "py_str repr v = repr v"

subsection \<open>The client and its futures\<close>

text \<open>
  A future is shared by the pending table and the coroutine that awaits it, so the
  client keeps the futures created so far in a list and the table holds their indices.
  \<open>ws\<close> says whether \<^verbatim>\<open>self.__ws\<close> holds a socket (it is never set back to
  \<^verbatim>\<open>None\<close>), \<open>coordinator_handler\<close> whether the coordinator has installed its two
  callbacks. \<open>sent\<close> logs the frames handed to \<^verbatim>\<open>send_json\<close> and \<open>slept\<close> the
  arguments of \<^verbatim>\<open>asyncio.sleep\<close> in the reconnect loop.
\<close>

datatype future = FPending | FResult pyval | FCancelled

record ws_client =
  api_key :: pyval
  app_id :: pyval
  access_token :: pyval
  ws :: bool
  is_connected :: bool
  reconnect_delay_time :: int
  stop_event :: bool
  coordinator_handler :: bool
  pending_responses :: "(string \<times> nat) list"
  futures :: "future list"
  sent :: "pydict list"
  slept :: "int list"

type_synonym system = "ws_client \<times> coordinator"

definition future_done :: "ws_client \<Rightarrow> nat \<Rightarrow> bool" where
  "future_done w fid = (fid < length (futures w) \<and> futures w ! fid \<noteq> FPending)"

definition set_result :: "ws_client \<Rightarrow> nat \<Rightarrow> pyval \<Rightarrow> ws_client" where
  "set_result w fid r =
     (if fid < length (futures w) then w\<lparr>futures := (futures w)[fid := FResult r]\<rparr> else w)"

definition cancel :: "ws_client \<Rightarrow> nat \<Rightarrow> ws_client" where
  "cancel w fid =
     (if fid < length (futures w) \<and> futures w ! fid = FPending
      then w\<lparr>futures := (futures w)[fid := FCancelled]\<rparr> else w)"

subsection \<open>\_\_handle\_ws\_message\<close>

text \<open>
  The first half of the handler: a frame whose sequence is in the pending table takes
  the entry out and resolves its future unless that is done already.
\<close>

definition resolve_pending :: "ws_client \<Rightarrow> string \<Rightarrow> pyval \<Rightarrow> ws_client" where
  "resolve_pending w sequence ws_message_json =
     (if sequence \<noteq> [] then
        (case map_of (pending_responses w) sequence of
           None \<Rightarrow> w
         | Some fid \<Rightarrow>
             (let w' = w\<lparr>pending_responses := pop (pending_responses w) sequence\<rparr>
              in if \<not> future_done w' fid then set_result w' fid ws_message_json else w'))
      else w)"

text \<open>
  \<^verbatim>\<open>"online" in params\<close> is a key test on a dict, a membership test on a list and a
  substring test on a string; a number is not iterable. \<^verbatim>\<open>params.get\<close> exists on a
  dict only.
\<close>

fun contains_online :: "pyval \<Rightarrow> py_error + bool" where
  "contains_online (PDict d) = Inr (map_of d ''online'' \<noteq> None)"
| "contains_online (PList xs) = Inr (List.member xs (PStr ''online''))"
| "contains_online (PStr s) = Inr (sublist ''online'' s)"
| "contains_online _ = Inl TypeError"

fun params_get_online :: "pyval \<Rightarrow> py_error + pyval" where
  "params_get_online (PDict d) = Inr (dict_get d ''online'' PNone)"
| "params_get_online _ = Inl AttributeError"

text \<open>
  The second half routes the frame by its action. The client part of the state is not
  touched; an exception of a coordinator callback propagates.
\<close>

definition dispatch_action :: "ws_consts \<Rightarrow> system \<Rightarrow> pydict \<Rightarrow> system \<times> py_error option" where
  "dispatch_action K s ws_message_json =
     (let action = dict_get ws_message_json (WS_MSG_ACTION K) PNone;
          deviceid = dict_get ws_message_json ''deviceid'' PNone;
          params = dict_get ws_message_json ''params'' PNone
      in if action = PStr (WS_MSG_ACTION_UPDATE K) then
           (if deviceid \<noteq> PNone \<and> params \<noteq> PNone \<and> coordinator_handler (fst s) then
              (case update_entity_state (snd s) deviceid params of
                 (c', err) \<Rightarrow> ((fst s, c'), err))
            else (s, None))
         else if action = PStr (WS_MSG_ACTION_SYSMSG K) then
           (if deviceid = PNone \<or> params = PNone then (s, None)
            else
              (case contains_online params of
                 Inl e \<Rightarrow> (s, Some e)
               | Inr False \<Rightarrow> (s, None)
               | Inr True \<Rightarrow>
                   (if coordinator_handler (fst s) then
                      (case params_get_online params of
                         Inl e \<Rightarrow> (s, Some e)
                       | Inr online \<Rightarrow>
                           (case update_entity_available (snd s) deviceid online of
                              (c', err) \<Rightarrow> ((fst s, c'), err)))
                    else (s, None))))
         else (s, None))"

text \<open>
  The frame arrives decoded: \<open>None\<close> when \<^verbatim>\<open>json.loads\<close> raises (caught and
  logged), a non-dict value has no \<^verbatim>\<open>get\<close>.
\<close>

definition handle_ws_message ::
    "ws_consts \<Rightarrow> (pyval \<Rightarrow> string) \<Rightarrow> system \<Rightarrow> pyval option \<Rightarrow> system \<times> py_error option" where
  "handle_ws_message K repr s ws_message =
     (case ws_message of
        None \<Rightarrow> (s, None)
      | Some (PDict ws_message_json) \<Rightarrow>
          (let sequence = py_str repr (dict_get ws_message_json ''sequence'' PNone)
           in dispatch_action K
                (resolve_pending (fst s) sequence (PDict ws_message_json), snd s)
                ws_message_json)
      | Some _ \<Rightarrow> (s, Some AttributeError))"

subsection \<open>control\_device\<close>

text \<open>
  The coroutine runs up to its first suspension: it returns an ack at once, raises,
  or is left awaiting its future with the timeout given to \<^verbatim>\<open>asyncio.wait_for\<close>
  (in seconds). The clock reading of \<^verbatim>\<open>now_timestamp()\<close> (milliseconds) and whether
  \<^verbatim>\<open>send_json\<close> succeeds are inputs.
\<close>

datatype control_step =
    Returned pyval
  | Raised py_error
  | Awaiting string nat nat

definition not_connected_ack :: pyval where
  "not_connected_ack =
     PDict [(''error'', PInt (- 1)), (''msg'', PStr ''ws not connect or device is not exist.'')]"

definition timeout_ack :: "string \<Rightarrow> pyval" where
  "timeout_ack sequence =
     PDict [(''error'', PInt 408), (''sequence'', PStr sequence), (''msg'', PStr ''Request Timeout'')]"

definition control_device ::
    "ws_consts \<Rightarrow> ws_client \<Rightarrow> int \<Rightarrow> pydict option \<Rightarrow> pyval \<Rightarrow> bool \<Rightarrow> ws_client \<times> control_step" where
  "control_device K w now ewelink_device params send_ok =
     (case ewelink_device of
        None \<Rightarrow> (w, Returned not_connected_ack)
      | Some device \<Rightarrow>
          if \<not> is_connected w then (w, Returned not_connected_ack)
          else
          (let sequence = str_int now;
               future = length (futures w);
               w1 = w\<lparr>futures := futures w @ [FPending],
                      pending_responses := setitem (pending_responses w) sequence future\<rparr>;
               command =
                 [(''action'', PStr (WS_MSG_ACTION_UPDATE K)),
                  (''apikey'', deep_get (PDict device) [KStr ''itemData'', KStr ''apikey''] PNone),
                  (''deviceid'', deep_get (PDict device) [KStr ''itemData'', KStr ''deviceid''] PNone),
                  (''params'', params),
                  (''selfApikey'', api_key w),
                  (''sequence'', PStr sequence),
                  (''userAgent'', PStr (WS_USER_AGENT K))]
           in if ws w1 then
                (if send_ok then (w1\<lparr>sent := sent w1 @ [command]\<rparr>, Awaiting sequence future 10)
                 else (w1, Raised ConnectionError))
              else (w1, Returned PNone)))"

text \<open>
  When the timeout elapses, \<^verbatim>\<open>wait_for\<close> cancels a future that is still pending.
  The coroutine resumes once its future is done: with the reply, or in the
  \<^verbatim>\<open>except TimeoutError\<close> branch, which drops the table entry and synthesizes the
  timeout ack. \<open>None\<close> means it is still suspended.
\<close>

definition wait_for_timeout :: "ws_client \<Rightarrow> nat \<Rightarrow> ws_client" where
  "wait_for_timeout w future = cancel w future"

definition control_device_resume ::
    "ws_client \<Rightarrow> string \<Rightarrow> nat \<Rightarrow> (ws_client \<times> pyval) option" where
  "control_device_resume w sequence future =
     (if future < length (futures w) then
        (case futures w ! future of
           FPending \<Rightarrow> None
         | FResult r \<Rightarrow> Some (w, r)
         | FCancelled \<Rightarrow>
             Some (if map_of (pending_responses w) sequence \<noteq> None
                   then w\<lparr>pending_responses := pop (pending_responses w) sequence\<rparr>
                   else w,
                   timeout_ack sequence))
      else None)"

subsection \<open>connect\_and\_reconnect\<close>

text \<open>
  What a session reads from the socket: text frames (decoded), a close or error frame,
  which end the read loop, and frames of other types, which are skipped. An exception
  of the message handler is not caught by the loop.
\<close>

datatype ws_frame = WS_TEXT "pyval option" | WS_CLOSED | WS_ERROR | WS_OTHER

fun read_frames ::
    "ws_consts \<Rightarrow> (pyval \<Rightarrow> string) \<Rightarrow> ws_frame list \<Rightarrow> system \<Rightarrow> system \<times> py_error option" where
  "read_frames K repr [] s = (s, None)"
| "read_frames K repr (WS_TEXT payload # rest) s =
     (case handle_ws_message K repr s payload of
        (s', None) \<Rightarrow> read_frames K repr rest s'
      | (s', Some e) \<Rightarrow> (s', Some e))"
| "read_frames K repr (WS_CLOSED # rest) s = (s, None)"
| "read_frames K repr (WS_ERROR # rest) s = (s, None)"
| "read_frames K repr (WS_OTHER # rest) s = read_frames K repr rest s"

text \<open>
  One pass of the \<^verbatim>\<open>while\<close> loop is driven by what the network does: the attempt
  fails with an exception one of the two \<^verbatim>\<open>except\<close> clauses catches, it raises
  another one, or it connects, announces the session (nonce, clock reading in
  milliseconds and in seconds) and reads frames until the socket ends.
  \<open>stop_requested\<close> says that \<^verbatim>\<open>stop()\<close> set the stop event during the pass. The
  trace of passes is finite; \<open>Looping\<close> is a loop that has consumed it and goes on.
\<close>

datatype attempt =
    Connect_failed
  | Connect_raised py_error
  | Connected string int int "ws_frame list"

record cycle =
  attempt :: attempt
  stop_requested :: bool

definition user_online :: "ws_consts \<Rightarrow> ws_client \<Rightarrow> string \<Rightarrow> int \<Rightarrow> int \<Rightarrow> pydict" where
  "user_online K w nonce now ts =
     [(''action'', PStr (WS_MSG_ACTION_USER_ONLINE K)),
      (''apikey'', api_key w),
      (''appid'', app_id w),
      (''at'', access_token w),
      (''nonce'', PStr nonce),
      (''sequence'', PStr (str_int now)),
      (''ts'', PInt ts),
      (''userAgent'', PStr (WS_USER_AGENT K)),
      (''version'', PInt 8)]"

fun run_attempt ::
    "ws_consts \<Rightarrow> (pyval \<Rightarrow> string) \<Rightarrow> attempt \<Rightarrow> system \<Rightarrow> system \<times> py_error option" where
  "run_attempt K repr Connect_failed s = (s, None)"
| "run_attempt K repr (Connect_raised e) s = (s, Some e)"
| "run_attempt K repr (Connected nonce now ts frames) (w, c) =
     (case read_frames K repr frames
             (w\<lparr>is_connected := True, ws := True,
                sent := sent w @ [user_online K w nonce now ts]\<rparr>, c) of
        ((w', c'), None) \<Rightarrow> ((w'\<lparr>is_connected := False\<rparr>, c'), None)
      | (s', Some e) \<Rightarrow> (s', Some e))"

datatype loop_state = Looping | Stopped | Crashed py_error

fun reconnect_cycles ::
    "ws_consts \<Rightarrow> (pyval \<Rightarrow> string) \<Rightarrow> cycle list \<Rightarrow> system \<Rightarrow> system \<times> loop_state" where
  "reconnect_cycles K repr [] s = (s, Looping)"
| "reconnect_cycles K repr (cy # rest) (w, c) =
     (if stop_event w then ((w, c), Stopped)
      else
        (case run_attempt K repr (attempt cy) (w\<lparr>is_connected := False\<rparr>, c) of
           (s', Some e) \<Rightarrow> (s', Crashed e)
         | ((w', c'), None) \<Rightarrow>
             (if stop_event w' \<or> stop_requested cy
              then ((w'\<lparr>stop_event := True\<rparr>, c'), Stopped)
              else
                reconnect_cycles K repr rest
                  (w'\<lparr>slept := slept w' @ [reconnect_delay_time w'],
                      reconnect_delay_time := min 60 (reconnect_delay_time w' + 5)\<rparr>, c'))))"

definition connect_and_reconnect ::
    "ws_consts \<Rightarrow> (pyval \<Rightarrow> string) \<Rightarrow> cycle list \<Rightarrow> system \<Rightarrow> system \<times> loop_state" where
  "connect_and_reconnect K repr cycles s =
     reconnect_cycles K repr cycles ((fst s)\<lparr>reconnect_delay_time := 5\<rparr>, snd s)"

subsection \<open>Initial states\<close>

text \<open>
  The client and the coordinator as their constructors leave them, and one choice of
  the constants, for the examples.
\<close>

definition example_consts :: ws_consts where
  "example_consts =
     \<lparr>WS_MSG_ACTION = ''action'', WS_MSG_ACTION_UPDATE = ''update'',
      WS_MSG_ACTION_SYSMSG = ''sysmsg'', WS_MSG_ACTION_USER_ONLINE = ''userOnline'',
      WS_USER_AGENT = ''app''\<rparr>"

definition new_client :: "pyval \<Rightarrow> pyval \<Rightarrow> pyval \<Rightarrow> ws_client" where
  "new_client key app token =
     \<lparr>api_key = key, app_id = app, access_token = token, ws = False, is_connected = False,
      reconnect_delay_time = 5, stop_event = False, coordinator_handler = False,
      pending_responses = [], futures = [], sent = [], slept = []\<rparr>"

definition new_coordinator :: coordinator where
  "new_coordinator = \<lparr>data = [], event_handler_map = [], fired = [], published = 0\<rparr>"


subsection \<open>Notions used in the statements\<close>

text \<open>The delay of the reconnect loop before its \<open>k\<close>-th sleep, counting from 0.\<close>

definition pace :: "nat \<Rightarrow> int" where
  "pace k = min 60 (5 + 5 * int k)"

text \<open>
  The invariant of the client: the pending table refers to futures that exist.
\<close>

definition pending_ok :: "ws_client \<Rightarrow> bool" where
  "pending_ok w = (\<forall>sq f. map_of (pending_responses w) sq = Some f \<longrightarrow> f < length (futures w))"



section \<open>Properties of merge\<close>

lemma merge_Cons_step: "merge d (kv # rest) = merge (merge_step kv d) rest"
  by (cases kv) (simp add: merge_step_def merged_value_def split: option.splits pyval.splits)

lemma merge_fold: "merge d s = fold merge_step s d"
  by (induction s arbitrary: d) (simp_all add: merge_Cons_step del: merge.simps(2))

lemma map_of_merge_step:
  "map_of (merge_step kv d) k =
     (if k = fst kv then Some (merged_value (map_of d (fst kv)) (snd kv)) else map_of d k)"
  by (simp add: merge_step_def setitem_def update_conv')

lemma keys_merge_step: "fst ` set (merge_step kv d) = insert (fst kv) (fst ` set d)"
  by (simp add: merge_step_def setitem_def AList.dom_update)

lemma map_of_merge_absent:
  "k \<notin> fst ` set s \<Longrightarrow> map_of (merge d s) k = map_of d k"
proof (induction s arbitrary: d)
  case Nil
  then show ?case by simp
next
  case (Cons kv rest)
  then show ?case
    by (simp add: merge_Cons_step map_of_merge_step del: merge.simps(2))
qed

lemma map_of_merge_present:
  "distinct (map fst s) \<Longrightarrow> (k, v) \<in> set s \<Longrightarrow>
     map_of (merge d s) k = Some (merged_value (map_of d k) v)"
proof (induction s arbitrary: d)
  case Nil
  then show ?case by simp
next
  case (Cons kv rest)
  show ?case
  proof (cases "kv = (k, v)")
    case True
    with Cons.prems have "k \<notin> fst ` set rest" by auto
    then show ?thesis using True
      by (simp add: merge_Cons_step map_of_merge_absent map_of_merge_step del: merge.simps(2))
  next
    case False
    with Cons.prems have in_rest: "(k, v) \<in> set rest" and d: "distinct (map fst rest)"
      by auto
    from Cons.prems in_rest have "k \<noteq> fst kv" by (auto simp: image_iff)
    then show ?thesis using Cons.IH [OF d in_rest]
      by (simp add: merge_Cons_step map_of_merge_step del: merge.simps(2))
  qed
qed

lemma keys_merge: "fst ` set (merge d s) = fst ` set d \<union> fst ` set s"
  by (induction s arbitrary: d)
     (auto simp add: merge_Cons_step keys_merge_step simp del: merge.simps(2))

lemma fold_fixed:
  "(\<And>kv. kv \<in> set s \<Longrightarrow> merge_step kv d = d) \<Longrightarrow> fold merge_step s d = d"
  by (induction s) simp_all

lemma merge_step_fixed:
  "map_of d (fst kv) = Some w \<Longrightarrow> merged_value (Some w) (snd kv) = w \<Longrightarrow> merge_step kv d = d"
  by (simp add: merge_step_def setitem_def update_triv)

text \<open>
  Merging a well-formed dict a second time, and merging it into itself, change
  nothing. The induction is on the value, so that the hypothesis is there for every
  nested dict.
\<close>

lemma merge_idem_val:
  "wf_val v \<Longrightarrow>
     (case v of
        PDict s \<Rightarrow> (\<forall>d. merge (merge d s) s = merge d s) \<and> merge s s = s
      | _ \<Rightarrow> True)"
proof (induction v)
  case (PDict s)
  from PDict.prems have dist: "distinct (map fst s)"
    and wfs: "\<And>k w. (k, w) \<in> set s \<Longrightarrow> wf_val w"
    by (auto simp: list_all_iff)
  have ih: "case w of
              PDict e \<Rightarrow> (\<forall>d. merge (merge d e) e = merge d e) \<and> merge e e = e
            | _ \<Rightarrow> True"
    if m: "(k, w) \<in> set s" for k w
  proof -
    from m have "w \<in> Basic_BNFs.snds (k, w)" by simp
    from PDict.IH [OF m this] wfs [OF m] show ?thesis .
  qed
  have self: "merged_value (Some w) w = w" if "(k, w) \<in> set s" for k w
    using ih [OF that] by (auto simp: merged_value_def split: pyval.splits)
  have twice: "merged_value (Some (merged_value x w)) w = merged_value x w"
    if m: "(k, w) \<in> set s" for k w x
  proof (cases "\<exists>sub src. x = Some (PDict sub) \<and> w = PDict src")
    case True
    then obtain sub src where x: "x = Some (PDict sub)" and w: "w = PDict src" by blast
    from ih [OF m] w have "merge (merge sub src) src = merge sub src" by simp
    then show ?thesis by (simp add: x w merged_value_def)
  next
    case False
    then have "merged_value x w = w"
      by (auto simp: merged_value_def split: option.splits pyval.splits)
    then show ?thesis using self [OF m] by simp
  qed
  have a: "merge s s = s"
  proof -
    have "merge_step kv s = s" if m: "kv \<in> set s" for kv
    proof -
      from m dist have "map_of s (fst kv) = Some (snd kv)" by simp
      moreover have "merged_value (Some (snd kv)) (snd kv) = snd kv"
        using self [of "fst kv" "snd kv"] m by simp
      ultimately show ?thesis by (rule merge_step_fixed)
    qed
    then show ?thesis by (simp add: merge_fold fold_fixed)
  qed
  have b: "merge (merge d s) s = merge d s" for d
  proof -
    have "merge_step kv (merge d s) = merge d s" if m: "kv \<in> set s" for kv
    proof -
      from m have m': "(fst kv, snd kv) \<in> set s" by simp
      have "map_of (merge d s) (fst kv) = Some (merged_value (map_of d (fst kv)) (snd kv))"
        using map_of_merge_present [OF dist m'] .
      moreover have "merged_value (Some (merged_value (map_of d (fst kv)) (snd kv))) (snd kv)
          = merged_value (map_of d (fst kv)) (snd kv)"
        using twice [OF m'] .
      ultimately show ?thesis by (rule merge_step_fixed)
    qed
    then have "fold merge_step s (merge d s) = merge d s" by (rule fold_fixed)
    then show ?thesis by (simp add: merge_fold)
  qed
  from a b show ?case by simp
qed simp_all

text \<open>
  Claim C1. Deep merge is key-wise non-destructive. For a source dict (its keys
  distinct, as in every Python dict) and any origin: a key of the source ends up
  holding the recursive merge of the two values when both the origin's and the
  source's value are dicts, and the source's value otherwise; a key that the source
  does not have keeps exactly what the origin had under it, so no key is removed; and
  the keys of the result are those of the origin together with those of the source.
\<close>

theorem merge_keywise_non_destructive:
  assumes "distinct (map fst source_dict)"
  shows "(\<forall>k v. (k, v) \<in> set source_dict \<longrightarrow>
            map_of (merge origin_dict source_dict) k =
              Some (case map_of origin_dict k of
                      Some (PDict sub) \<Rightarrow>
                        (case v of PDict src \<Rightarrow> PDict (merge sub src) | _ \<Rightarrow> v)
                    | _ \<Rightarrow> v))
       \<and> (\<forall>k. k \<notin> fst ` set source_dict \<longrightarrow>
            map_of (merge origin_dict source_dict) k = map_of origin_dict k)
       \<and> fst ` set (merge origin_dict source_dict) =
            fst ` set origin_dict \<union> fst ` set source_dict"
proof -
  have "map_of (merge origin_dict source_dict) k =
          Some (case map_of origin_dict k of
                  Some (PDict sub) \<Rightarrow>
                    (case v of PDict src \<Rightarrow> PDict (merge sub src) | _ \<Rightarrow> v)
                | _ \<Rightarrow> v)"
    if "(k, v) \<in> set source_dict" for k v
    using map_of_merge_present [OF assms that, of origin_dict]
    by (simp add: merged_value_def)
  moreover have "map_of (merge origin_dict source_dict) k = map_of origin_dict k"
    if "k \<notin> fst ` set source_dict" for k
    using that by (rule map_of_merge_absent)
  moreover note keys_merge [of origin_dict source_dict]
  ultimately show ?thesis by blast
qed

theorem merge_keywise_non_destructive_witness:
  "distinct (map fst [(''switch'', PStr ''on''), (''white'', PDict [(''br'', PInt 40)])])
   \<and> map_of (merge
        [(''switch'', PStr ''off''), (''white'', PDict [(''br'', PInt 7), (''ct'', PInt 9)]),
         (''rssi'', PInt (- 60))]
        [(''switch'', PStr ''on''), (''white'', PDict [(''br'', PInt 40)])]) ''switch''
       = Some (PStr ''on'')
   \<and> map_of (merge
        [(''switch'', PStr ''off''), (''white'', PDict [(''br'', PInt 7), (''ct'', PInt 9)]),
         (''rssi'', PInt (- 60))]
        [(''switch'', PStr ''on''), (''white'', PDict [(''br'', PInt 40)])]) ''white''
       = Some (PDict (merge [(''br'', PInt 7), (''ct'', PInt 9)] [(''br'', PInt 40)]))
   \<and> map_of (merge
        [(''switch'', PStr ''off''), (''white'', PDict [(''br'', PInt 7), (''ct'', PInt 9)]),
         (''rssi'', PInt (- 60))]
        [(''switch'', PStr ''on''), (''white'', PDict [(''br'', PInt 40)])]) ''rssi''
       = Some (PInt (- 60))"
proof -
  have h: "distinct (map fst [(''switch'', PStr ''on''), (''white'', PDict [(''br'', PInt 40)])])"
    by simp
  from merge_keywise_non_destructive [OF h,
      of "[(''switch'', PStr ''off''), (''white'', PDict [(''br'', PInt 7), (''ct'', PInt 9)]),
          (''rssi'', PInt (- 60))]"]
  show ?thesis by (simp add: setitem_def)
qed

text \<open>
  Claim C4. Merging the empty dict leaves the state unchanged, and merging the same
  partial update (a well-formed dict) a second time yields exactly the state the
  first merge produced, insertion order included.
\<close>

theorem merge_identity_and_idempotent:
  "merge state [] = state
   \<and> (wf_val (PDict update) \<longrightarrow> merge (merge state update) update = merge state update)"
  using merge_idem_val [of "PDict update"] by simp

theorem merge_identity_and_idempotent_witness:
  "merge [(''switch'', PStr ''off'')] [] = [(''switch'', PStr ''off'')]
   \<and> wf_val (PDict [(''white'', PDict [(''br'', PInt 40)]), (''ltype'', PStr ''white'')])
   \<and> merge (merge [(''switch'', PStr ''off'')]
               [(''white'', PDict [(''br'', PInt 40)]), (''ltype'', PStr ''white'')])
        [(''white'', PDict [(''br'', PInt 40)]), (''ltype'', PStr ''white'')]
       = merge [(''switch'', PStr ''off'')]
           [(''white'', PDict [(''br'', PInt 40)]), (''ltype'', PStr ''white'')]"
proof -
  have h: "wf_val (PDict [(''white'', PDict [(''br'', PInt 40)]), (''ltype'', PStr ''white'')])"
    by simp
  from merge_identity_and_idempotent [of "[(''switch'', PStr ''off'')]"
      "[(''white'', PDict [(''br'', PInt 40)]), (''ltype'', PStr ''white'')]"] h
  show ?thesis by blast
qed

section \<open>Rounding and the brightness remap\<close>

lemma py_round_nearest: "\<bar>of_int (py_round x) - x\<bar> \<le> 1 / 2"
proof -
  have a: "of_int \<lfloor>x\<rfloor> \<le> x" and b: "x < of_int \<lfloor>x\<rfloor> + 1"
    by linarith+
  show ?thesis
    unfolding py_round_def Let_def using a b by (simp add: abs_if) linarith
qed

lemma py_round_unique:
  assumes "\<bar>x - of_int k\<bar> < 1 / 2"
  shows "py_round x = k"
proof -
  have "\<bar>(of_int (py_round x) :: rat) - of_int k\<bar> < 1"
    using py_round_nearest [of x] assms by linarith
  then have "\<bar>(of_int (py_round x - k) :: rat)\<bar> < of_int 1" by simp
  then have "\<bar>py_round x - k\<bar> < 1"
    unfolding of_int_abs [symmetric] of_int_less_iff .
  then show ?thesis by linarith
qed

lemma py_round_mono:
  assumes "x \<le> y"
  shows "py_round x \<le> py_round y"
proof (rule ccontr)
  assume "\<not> py_round x \<le> py_round y"
  then have lt: "py_round y + 1 \<le> py_round x" by simp
  then have lt': "(of_int (py_round y) :: rat) + 1 \<le> of_int (py_round x)"
    by (metis of_int_1 of_int_add of_int_le_iff)
  have "x = y"
    using py_round_nearest [of x] py_round_nearest [of y] assms lt' by linarith
  with lt show False by simp
qed


lemma native_to_ha_to_native:
  assumes "1 \<le> n" "n \<le> 100"
  shows "py_round (map_value_general
           (of_int (py_round (map_value_general (of_int n)
              ewelink_brightness_range ha_brightness_range)))
           ha_brightness_range ewelink_brightness_range) = n"
proof -
  define x :: rat where "x = 1 + (of_int n - 1) * 254 / 99"
  define e where "e = py_round x"
  have e: "\<bar>of_int e - x\<bar> \<le> 1 / 2" unfolding e_def by (rule py_round_nearest)
  have eq: "1 + (of_int e - 1) * 99 / 254 - of_int n = (of_int e - x) * (99 / 254)"
    unfolding x_def by (simp add: field_simps)
  have "\<bar>1 + (of_int e - 1) * 99 / 254 - of_int n\<bar> = \<bar>of_int e - x\<bar> * (99 / 254)"
    unfolding eq abs_mult by simp
  moreover have "\<bar>of_int e - x\<bar> * (99 / 254) \<le> (1 / 2) * (99 / 254)"
    using e by (intro mult_right_mono) simp_all
  ultimately have "\<bar>1 + (of_int e - 1) * 99 / 254 - (of_int n :: rat)\<bar> < 1 / 2" by simp
  then have "py_round (1 + (of_int e - 1) * 99 / 254) = n" by (rule py_round_unique)
  then show ?thesis
    by (simp add: map_value_general_def ewelink_brightness_range_def ha_brightness_range_def
        e_def x_def)
qed

text \<open>
  In the other direction, an external value set and read back, the two roundings add
  up to less than two units, so the result is at most one unit off.
\<close>

lemma ha_to_native_to_ha:
  "\<bar>py_round (map_value_general
           (of_int (py_round (map_value_general (of_int e)
              ha_brightness_range ewelink_brightness_range)))
           ewelink_brightness_range ha_brightness_range) - e\<bar> \<le> 1"
proof -
  define y :: rat where "y = 1 + (of_int e - 1) * 99 / 254"
  define n where "n = py_round y"
  define x :: rat where "x = 1 + (of_int n - 1) * 254 / 99"
  have n: "\<bar>of_int n - y\<bar> \<le> 1 / 2" unfolding n_def by (rule py_round_nearest)
  have eq: "x - of_int e = (of_int n - y) * (254 / 99)"
    unfolding x_def y_def by (simp add: field_simps)
  have "\<bar>x - of_int e\<bar> = \<bar>of_int n - y\<bar> * (254 / 99)"
    unfolding eq abs_mult by simp
  moreover have "\<bar>of_int n - y\<bar> * (254 / 99) \<le> (1 / 2) * (254 / 99)"
    using n by (intro mult_right_mono) simp_all
  ultimately have a: "\<bar>x - of_int e\<bar> \<le> 127 / 99" by simp
  have b: "\<bar>of_int (py_round x) - x\<bar> \<le> 1 / 2" by (rule py_round_nearest)
  from a b have "\<bar>(of_int (py_round x) :: rat) - of_int e\<bar> < 2" by linarith
  then have "\<bar>(of_int (py_round x - e) :: rat)\<bar> < of_int 2" by simp
  then have "\<bar>py_round x - e\<bar> < 2"
    unfolding of_int_abs [symmetric] of_int_less_iff .
  then have "\<bar>py_round x - e\<bar> \<le> 1" by linarith
  then show ?thesis
    by (simp add: map_value_general_def ewelink_brightness_range_def ha_brightness_range_def
        x_def n_def y_def)
qed

lemma subscript_KStr_Some:
  "subscript v (KStr k) = Some w \<Longrightarrow> \<exists>d. v = PDict d \<and> map_of d k = Some w"
  by (cases v) simp_all

lemma map_value_general_mono:
  "fst r1 < snd r1 \<Longrightarrow> fst r2 \<le> snd r2 \<Longrightarrow> x \<le> y \<Longrightarrow>
     map_value_general x r1 r2 \<le> map_value_general y r1 r2"
  unfolding map_value_general_def
  by (intro add_left_mono divide_right_mono mult_right_mono) simp_all

lemma map_value_general_linear:
  "map_value_general (x + d) r1 r2 =
     map_value_general x r1 r2 + d * ((snd r2 - fst r2) / (snd r1 - fst r1))"
proof -
  have "(x + d - fst r1) * (snd r2 - fst r2) = (x - fst r1) * (snd r2 - fst r2) + d * (snd r2 - fst r2)"
    by (simp add: algebra_simps)
  then show ?thesis
    unfolding map_value_general_def by (simp add: add_divide_distrib)
qed

lemma merged_value_dict:
  assumes "distinct (map fst src)" and "(k, v) \<in> set src"
  shows "\<exists>X old'. merged_value old (PDict src) = PDict X \<and> map_of X k = Some (merged_value old' v)"
proof (cases "\<exists>sub. old = Some (PDict sub)")
  case True
  then obtain sub where "old = Some (PDict sub)" by blast
  then have "merged_value old (PDict src) = PDict (merge sub src)"
    by (simp add: merged_value_def)
  moreover have "map_of (merge sub src) k = Some (merged_value (map_of sub k) v)"
    using assms by (rule map_of_merge_present)
  ultimately show ?thesis by blast
next
  case False
  then have "merged_value old (PDict src) = PDict src"
    by (auto simp: merged_value_def split: option.splits pyval.splits)
  moreover have "map_of src k = Some (merged_value None v)"
    using assms by (simp add: merged_value_def)
  ultimately show ?thesis by blast
qed

lemma merged_value_scalar:
  "(\<And>d. v \<noteq> PDict d) \<Longrightarrow> merged_value old v = v"
  by (cases v) (auto simp: merged_value_def split: option.splits pyval.splits)

text \<open>The device after a params dict of the given shape has been merged into it.\<close>

lemma merged_device_lookups:
  assumes lt: "\<And>d. lt \<noteq> PDict d" and sub: "sub \<noteq> ''ltype''"
    and "distinct (map fst B)" and "(''br'', PInt n) \<in> set B"
  shows "deep_get (PDict (merge device
            [(''itemData'', PDict [(''params'', PDict [(''ltype'', lt), (sub, PDict B)])])]))
           [KStr ''itemData'', KStr ''params'', KStr ''ltype''] dflt = lt"
    and "deep_get (PDict (merge device
            [(''itemData'', PDict [(''params'', PDict [(''ltype'', lt), (sub, PDict B)])])]))
           [KStr ''itemData'', KStr ''params'', KStr sub, KStr ''br''] dflt' = PInt n"
proof -
  let ?P = "[(''ltype'', lt), (sub, PDict B)]"
  let ?S1 = "[(''params'', PDict ?P)]"
  let ?d' = "merge device [(''itemData'', PDict ?S1)]"
  have "map_of ?d' ''itemData'' = Some (merged_value (map_of device ''itemData'') (PDict ?S1))"
    by (rule map_of_merge_present) simp_all
  moreover obtain X1 o1 where "merged_value (map_of device ''itemData'') (PDict ?S1) = PDict X1"
    and x1: "map_of X1 ''params'' = Some (merged_value o1 (PDict ?P))"
    using merged_value_dict [of ?S1 "''params''" "PDict ?P" "map_of device ''itemData''"] by auto
  ultimately have d0: "map_of ?d' ''itemData'' = Some (PDict X1)" by simp
  have dP: "distinct (map fst ?P)" using sub by simp
  obtain X2 o2 where m2: "merged_value o1 (PDict ?P) = PDict X2"
    and x2: "map_of X2 ''ltype'' = Some (merged_value o2 lt)"
    using merged_value_dict [OF dP, of "''ltype''" lt o1] by auto
  obtain X2' o3 where m2': "merged_value o1 (PDict ?P) = PDict X2'"
    and x2': "map_of X2' sub = Some (merged_value o3 (PDict B))"
    using merged_value_dict [OF dP, of sub "PDict B" o1] by auto
  from m2 m2' have same: "X2' = X2" by simp
  obtain X3 o4 where m3: "merged_value o3 (PDict B) = PDict X3"
    and x3: "map_of X3 ''br'' = Some (merged_value o4 (PInt n))"
    using merged_value_dict [OF assms(3,4), of o3] by auto
  have l: "merged_value o2 lt = lt" using lt by (rule merged_value_scalar)
  have b: "merged_value o4 (PInt n) = PInt n" by (simp add: merged_value_def split: option.splits pyval.splits)
  show "deep_get (PDict ?d') [KStr ''itemData'', KStr ''params'', KStr ''ltype''] dflt = lt"
    using d0 x1 m2 x2 l by simp
  show "deep_get (PDict ?d') [KStr ''itemData'', KStr ''params'', KStr sub, KStr ''br''] dflt' = PInt n"
    using d0 x1 m2 x2' same m3 x3 b by simp
qed


lemma gen_control_brightness_params_shape:
  assumes "get_ltype device = PStr ''color'' \<longrightarrow>
             (\<exists>c. uiid_deep_get (PDict device)
                    [KStr ''itemData'', KStr ''params'', KStr ''color''] (PDict []) = PDict c)"
  shows "\<exists>B. gen_control_brightness_params device brightness =
               Inr [(''ltype'', get_ltype device),
                    (if get_ltype device = PStr ''color'' then ''color'' else ''white'', PDict B)]
           \<and> distinct (map fst B)
           \<and> (''br'', PInt (py_round (map_value_general (of_int brightness)
                                        ha_brightness_range ewelink_brightness_range))) \<in> set B"
proof (cases "get_ltype device = PStr ''color''")
  case True
  with assms obtain c where "uiid_deep_get (PDict device)
      [KStr ''itemData'', KStr ''params'', KStr ''color''] (PDict []) = PDict c"
    by blast
  with True show ?thesis
    by (simp add: gen_control_brightness_params_def Let_def)
next
  case False
  then show ?thesis
    by (simp add: gen_control_brightness_params_def Let_def)
qed

lemma gen_control_brightness_params_writes:
  assumes "get_ltype device = PStr ''color'' \<longrightarrow>
             (\<exists>c. uiid_deep_get (PDict device)
                    [KStr ''itemData'', KStr ''params'', KStr ''color''] (PDict []) = PDict c)"
  shows "\<exists>params. gen_control_brightness_params device brightness = Inr params
           \<and> dict_get params ''ltype'' PNone = get_ltype device
           \<and> deep_get (PDict params)
                [KStr (if get_ltype device = PStr ''color'' then ''color'' else ''white''),
                 KStr ''br''] PNone
              = PInt (py_round (map_value_general (of_int brightness)
                                  ha_brightness_range ewelink_brightness_range))"
proof -
  from gen_control_brightness_params_shape [OF assms, of brightness]
  obtain B where g: "gen_control_brightness_params device brightness =
               Inr [(''ltype'', get_ltype device),
                    (if get_ltype device = PStr ''color'' then ''color'' else ''white'', PDict B)]"
    and d: "distinct (map fst B)"
    and b: "(''br'', PInt (py_round (map_value_general (of_int brightness)
                                        ha_brightness_range ewelink_brightness_range))) \<in> set B"
    by blast
  from d b have "map_of B ''br'' = Some (PInt (py_round (map_value_general (of_int brightness)
                                        ha_brightness_range ewelink_brightness_range)))"
    by simp
  with g show ?thesis by (auto simp: dict_get_def)
qed

lemma get_brightess_reads:
  assumes "uiid_deep_get (PDict device)
             [KStr ''itemData'', KStr ''params'', path_key_of (get_ltype device), KStr ''br''] PNone
           = PInt n"
  shows "get_brightess device =
           Some (py_round (map_value_general (of_int n)
                             ewelink_brightness_range ha_brightness_range))"
  using assms by (simp add: get_brightess_def Let_def)

lemma set_then_get:
  assumes lt: "get_ltype device = PStr ''white'' \<or> get_ltype device = PStr ''color''"
    and g: "gen_control_brightness_params device e = Inr params"
  shows "\<exists>e'. get_brightess (merge device [(''itemData'', PDict [(''params'', PDict params)])])
               = Some e' \<and> \<bar>e' - e\<bar> \<le> 1"
proof -
  let ?n = "py_round (map_value_general (of_int e) ha_brightness_range ewelink_brightness_range)"
  let ?sub = "if get_ltype device = PStr ''color'' then ''color'' else ''white''"
  have pre: "get_ltype device = PStr ''color'' \<longrightarrow>
             (\<exists>c. uiid_deep_get (PDict device)
                    [KStr ''itemData'', KStr ''params'', KStr ''color''] (PDict []) = PDict c)"
    using g by (auto simp: gen_control_brightness_params_def Let_def split: pyval.splits)
  from gen_control_brightness_params_shape [OF pre, of e] g
  obtain B where p: "params = [(''ltype'', get_ltype device), (?sub, PDict B)]"
    and d: "distinct (map fst B)" and b: "(''br'', PInt ?n) \<in> set B"
    by auto
  let ?d' = "merge device [(''itemData'', PDict [(''params'', PDict params)])]"
  have nd: "\<And>x. get_ltype device \<noteq> PDict x" using lt by auto
  have ns: "?sub \<noteq> ''ltype''" by simp
  note look = merged_device_lookups [OF nd ns d b, of device, folded p]
  have l': "get_ltype ?d' = get_ltype device"
    unfolding get_ltype_def [of ?d'] uiid_deep_get_def by (rule look(1))
  have k: "path_key_of (get_ltype device) = KStr ?sub" using lt by auto
  have "uiid_deep_get (PDict ?d')
          [KStr ''itemData'', KStr ''params'', path_key_of (get_ltype ?d'), KStr ''br''] PNone
        = PInt ?n"
    unfolding l' k uiid_deep_get_def by (rule look(2))
  from get_brightess_reads [OF this]
  have "get_brightess ?d' = Some (py_round (map_value_general (of_int ?n)
                             ewelink_brightness_range ha_brightness_range))" .
  with ha_to_native_to_ha [of e] show ?thesis by simp
qed


text \<open>
  Claim C8. Setting a brightness on a family-104 device writes, under the device's
  own light type, the external value remapped to the native range and rounded, whatever
  the device stored before; reading maps the stored native value to the external range
  and rounds. A native value between 1 and 100 read from one device and set on any other
  comes back within one unit, and an external value that was set, merged into the
  stored device the way the coordinator merges params, and read back is within one
  unit of the value set. In both directions the remap followed by rounding is
  monotonic, rounding goes to a nearest integer (the result is at most one half away),
  and the remap is linear with slope 254/99 towards the external range and 99/254 back.
\<close>

theorem brightness_remap_round_trip:
  "(\<forall>device brightness.
      (get_ltype device = PStr ''color'' \<longrightarrow>
         (\<exists>c. uiid_deep_get (PDict device)
                [KStr ''itemData'', KStr ''params'', KStr ''color''] (PDict []) = PDict c)) \<longrightarrow>
      (\<exists>params. gen_control_brightness_params device brightness = Inr params
         \<and> dict_get params ''ltype'' PNone = get_ltype device
         \<and> deep_get (PDict params)
              [KStr (if get_ltype device = PStr ''color'' then ''color'' else ''white''),
               KStr ''br''] PNone
            = PInt (py_round (map_value_general (of_int brightness)
                                ha_brightness_range ewelink_brightness_range))))
   \<and> (\<forall>device n.
        uiid_deep_get (PDict device)
          [KStr ''itemData'', KStr ''params'', path_key_of (get_ltype device), KStr ''br''] PNone
          = PInt n \<longrightarrow>
        get_brightess device =
          Some (py_round (map_value_general (of_int n)
                            ewelink_brightness_range ha_brightness_range)))
   \<and> (\<forall>reader setter n.
        1 \<le> n \<and> n \<le> 100
        \<and> uiid_deep_get (PDict reader)
            [KStr ''itemData'', KStr ''params'', path_key_of (get_ltype reader), KStr ''br''] PNone
            = PInt n
        \<and> (get_ltype setter = PStr ''color'' \<longrightarrow>
             (\<exists>c. uiid_deep_get (PDict setter)
                    [KStr ''itemData'', KStr ''params'', KStr ''color''] (PDict []) = PDict c)) \<longrightarrow>
        (\<exists>e params n'.
            get_brightess reader = Some e
          \<and> gen_control_brightness_params setter e = Inr params
          \<and> deep_get (PDict params)
               [KStr (if get_ltype setter = PStr ''color'' then ''color'' else ''white''),
                KStr ''br''] PNone = PInt n'
          \<and> \<bar>n' - n\<bar> \<le> 1))
   \<and> (\<forall>device e params.
        (get_ltype device = PStr ''white'' \<or> get_ltype device = PStr ''color'')
        \<and> gen_control_brightness_params device e = Inr params \<longrightarrow>
        (\<exists>e'. get_brightess (merge device [(''itemData'', PDict [(''params'', PDict params)])])
                 = Some e'
             \<and> \<bar>e' - e\<bar> \<le> 1))
   \<and> (\<forall>e. \<bar>py_round (map_value_general
                (of_int (py_round (map_value_general (of_int e)
                   ha_brightness_range ewelink_brightness_range)))
                ewelink_brightness_range ha_brightness_range) - e\<bar> \<le> 1)
   \<and> (\<forall>x y. x \<le> y \<longrightarrow>
          py_round (map_value_general x ewelink_brightness_range ha_brightness_range)
            \<le> py_round (map_value_general y ewelink_brightness_range ha_brightness_range)
        \<and> py_round (map_value_general x ha_brightness_range ewelink_brightness_range)
            \<le> py_round (map_value_general y ha_brightness_range ewelink_brightness_range))
   \<and> (\<forall>x. \<bar>of_int (py_round x) - x\<bar> \<le> 1 / 2)
   \<and> (\<forall>x d. map_value_general (x + d) ewelink_brightness_range ha_brightness_range
              = map_value_general x ewelink_brightness_range ha_brightness_range
                + d * (254 / 99)
          \<and> map_value_general (x + d) ha_brightness_range ewelink_brightness_range
              = map_value_general x ha_brightness_range ewelink_brightness_range
                + d * (99 / 254))"
proof (intro conjI allI impI)
  fix device :: pydict and brightness :: int
  assume "get_ltype device = PStr ''color'' \<longrightarrow>
         (\<exists>c. uiid_deep_get (PDict device)
                [KStr ''itemData'', KStr ''params'', KStr ''color''] (PDict []) = PDict c)"
  then show "\<exists>params. gen_control_brightness_params device brightness = Inr params
         \<and> dict_get params ''ltype'' PNone = get_ltype device
         \<and> deep_get (PDict params)
              [KStr (if get_ltype device = PStr ''color'' then ''color'' else ''white''),
               KStr ''br''] PNone
            = PInt (py_round (map_value_general (of_int brightness)
                                ha_brightness_range ewelink_brightness_range))"
    by (rule gen_control_brightness_params_writes)
next
  fix device :: pydict and n :: int
  assume "uiid_deep_get (PDict device)
          [KStr ''itemData'', KStr ''params'', path_key_of (get_ltype device), KStr ''br''] PNone
          = PInt n"
  then show "get_brightess device =
          Some (py_round (map_value_general (of_int n)
                            ewelink_brightness_range ha_brightness_range))"
    by (rule get_brightess_reads)
next
  fix reader setter :: pydict and n :: int
  assume a: "1 \<le> n \<and> n \<le> 100
        \<and> uiid_deep_get (PDict reader)
            [KStr ''itemData'', KStr ''params'', path_key_of (get_ltype reader), KStr ''br''] PNone
            = PInt n
        \<and> (get_ltype setter = PStr ''color'' \<longrightarrow>
             (\<exists>c. uiid_deep_get (PDict setter)
                    [KStr ''itemData'', KStr ''params'', KStr ''color''] (PDict []) = PDict c))"
  define e where "e = py_round (map_value_general (of_int n)
                                  ewelink_brightness_range ha_brightness_range)"
  from a have r: "get_brightess reader = Some e"
    unfolding e_def by (intro get_brightess_reads) simp
  from a have pre: "get_ltype setter = PStr ''color'' \<longrightarrow>
             (\<exists>c. uiid_deep_get (PDict setter)
                    [KStr ''itemData'', KStr ''params'', KStr ''color''] (PDict []) = PDict c)"
    by simp
  from gen_control_brightness_params_writes [OF pre, of e]
  obtain params where p: "gen_control_brightness_params setter e = Inr params"
    and w: "deep_get (PDict params)
              [KStr (if get_ltype setter = PStr ''color'' then ''color'' else ''white''),
               KStr ''br''] PNone
            = PInt (py_round (map_value_general (of_int e)
                                ha_brightness_range ewelink_brightness_range))"
    by blast
  from a have "py_round (map_value_general (of_int e)
                 ha_brightness_range ewelink_brightness_range) = n"
    unfolding e_def by (intro native_to_ha_to_native) simp_all
  with r p w show "\<exists>e params n'.
            get_brightess reader = Some e
          \<and> gen_control_brightness_params setter e = Inr params
          \<and> deep_get (PDict params)
               [KStr (if get_ltype setter = PStr ''color'' then ''color'' else ''white''),
                KStr ''br''] PNone = PInt n'
          \<and> \<bar>n' - n\<bar> \<le> 1"
    by (intro exI [of _ e] exI [of _ params] exI [of _ n]) simp
next
  fix device params :: pydict and e :: int
  assume "(get_ltype device = PStr ''white'' \<or> get_ltype device = PStr ''color'')
        \<and> gen_control_brightness_params device e = Inr params"
  then show "\<exists>e'. get_brightess (merge device [(''itemData'', PDict [(''params'', PDict params)])])
                 = Some e'
             \<and> \<bar>e' - e\<bar> \<le> 1"
    by (intro set_then_get) simp_all
next
  fix e :: int
  show "\<bar>py_round (map_value_general
                (of_int (py_round (map_value_general (of_int e)
                   ha_brightness_range ewelink_brightness_range)))
                ewelink_brightness_range ha_brightness_range) - e\<bar> \<le> 1"
    by (rule ha_to_native_to_ha)
next
  fix x y :: rat
  assume "x \<le> y"
  then show "py_round (map_value_general x ewelink_brightness_range ha_brightness_range)
            \<le> py_round (map_value_general y ewelink_brightness_range ha_brightness_range)"
    by (intro py_round_mono map_value_general_mono)
       (simp_all add: ewelink_brightness_range_def ha_brightness_range_def)
next
  fix x y :: rat
  assume "x \<le> y"
  then show "py_round (map_value_general x ha_brightness_range ewelink_brightness_range)
            \<le> py_round (map_value_general y ha_brightness_range ewelink_brightness_range)"
    by (intro py_round_mono map_value_general_mono)
       (simp_all add: ewelink_brightness_range_def ha_brightness_range_def)
next
  fix x :: rat
  show "\<bar>of_int (py_round x) - x\<bar> \<le> 1 / 2" by (rule py_round_nearest)
next
  fix x d :: rat
  show "map_value_general (x + d) ewelink_brightness_range ha_brightness_range
              = map_value_general x ewelink_brightness_range ha_brightness_range
                + d * (254 / 99)"
    by (simp add: map_value_general_linear [of x d]
        ewelink_brightness_range_def ha_brightness_range_def)
next
  fix x d :: rat
  show "map_value_general (x + d) ha_brightness_range ewelink_brightness_range
              = map_value_general x ha_brightness_range ewelink_brightness_range
                + d * (99 / 254)"
    by (simp add: map_value_general_linear [of x d]
        ewelink_brightness_range_def ha_brightness_range_def)
qed

theorem brightness_remap_round_trip_witness:
  "(\<exists>e params n'.
      get_brightess [(''itemData'', PDict [(''params'',
          PDict [(''ltype'', PStr ''white''),
                 (''white'', PDict [(''br'', PInt 50), (''ct'', PInt 0)])])])] = Some e
    \<and> gen_control_brightness_params [(''itemData'', PDict [(''params'',
          PDict [(''ltype'', PStr ''color''),
                 (''color'', PDict [(''br'', PInt 7), (''r'', PInt 1)])])])] e = Inr params
    \<and> deep_get (PDict params) [KStr ''color'', KStr ''br''] PNone = PInt n'
    \<and> \<bar>n' - 50\<bar> \<le> 1)
   \<and> (\<exists>params e'.
      gen_control_brightness_params [(''itemData'', PDict [(''params'',
          PDict [(''ltype'', PStr ''white''),
                 (''white'', PDict [(''br'', PInt 50), (''ct'', PInt 0)])])])] 200 = Inr params
    \<and> get_brightess (merge [(''itemData'', PDict [(''params'',
          PDict [(''ltype'', PStr ''white''),
                 (''white'', PDict [(''br'', PInt 50), (''ct'', PInt 0)])])])]
          [(''itemData'', PDict [(''params'', PDict params)])]) = Some e'
    \<and> \<bar>e' - 200\<bar> \<le> 1)"
proof -
  let ?r = "[(''itemData'', PDict [(''params'',
          PDict [(''ltype'', PStr ''white''),
                 (''white'', PDict [(''br'', PInt 50), (''ct'', PInt 0)])])])]"
  let ?s = "[(''itemData'', PDict [(''params'',
          PDict [(''ltype'', PStr ''color''),
                 (''color'', PDict [(''br'', PInt 7), (''r'', PInt 1)])])])]"
  have lr: "get_ltype ?r = PStr ''white''" by (simp add: get_ltype_def uiid_deep_get_def)
  have ls: "get_ltype ?s = PStr ''color''" by (simp add: get_ltype_def uiid_deep_get_def)
  have h1: "uiid_deep_get (PDict ?r)
            [KStr ''itemData'', KStr ''params'', path_key_of (get_ltype ?r), KStr ''br''] PNone
            = PInt 50"
    unfolding lr by (simp add: uiid_deep_get_def)
  have h2: "get_ltype ?s = PStr ''color'' \<longrightarrow>
             (\<exists>c. uiid_deep_get (PDict ?s)
                    [KStr ''itemData'', KStr ''params'', KStr ''color''] (PDict []) = PDict c)"
    by (simp add: uiid_deep_get_def)
  have h3: "get_ltype ?r = PStr ''color'' \<longrightarrow>
             (\<exists>c. uiid_deep_get (PDict ?r)
                    [KStr ''itemData'', KStr ''params'', KStr ''color''] (PDict []) = PDict c)"
    by (simp add: lr)
  note c1 = brightness_remap_round_trip [THEN conjunct1, THEN spec, THEN spec, THEN mp]
  note c3 = brightness_remap_round_trip
              [THEN conjunct2, THEN conjunct2, THEN conjunct1, rule_format]
  note c4 = brightness_remap_round_trip
              [THEN conjunct2, THEN conjunct2, THEN conjunct2, THEN conjunct1, rule_format]
  have "1 \<le> (50::int) \<and> (50::int) \<le> 100
        \<and> uiid_deep_get (PDict ?r)
            [KStr ''itemData'', KStr ''params'', path_key_of (get_ltype ?r), KStr ''br''] PNone
            = PInt 50
        \<and> (get_ltype ?s = PStr ''color'' \<longrightarrow>
             (\<exists>c. uiid_deep_get (PDict ?s)
                    [KStr ''itemData'', KStr ''params'', KStr ''color''] (PDict []) = PDict c))"
    using h1 h2 by (intro conjI) simp_all
  from c3 [OF this] have a: "\<exists>e params n'.
            get_brightess ?r = Some e
          \<and> gen_control_brightness_params ?s e = Inr params
          \<and> deep_get (PDict params)
               [KStr (if get_ltype ?s = PStr ''color'' then ''color'' else ''white''),
                KStr ''br''] PNone = PInt n'
          \<and> \<bar>n' - 50\<bar> \<le> 1" .
  from c1 [OF h3, of 200] obtain params
    where p: "gen_control_brightness_params ?r 200 = Inr params"
    by (elim exE conjE)
  from lr p have "(get_ltype ?r = PStr ''white'' \<or> get_ltype ?r = PStr ''color'')
        \<and> gen_control_brightness_params ?r 200 = Inr params"
    by (intro conjI disjI1)
  from c4 [OF this] have b: "\<exists>e'. get_brightess (merge ?r [(''itemData'', PDict [(''params'', PDict params)])])
                 = Some e' \<and> \<bar>e' - 200\<bar> \<le> 1" .
  from a have a': "\<exists>e params n'.
            get_brightess ?r = Some e
          \<and> gen_control_brightness_params ?s e = Inr params
          \<and> deep_get (PDict params) [KStr ''color'', KStr ''br''] PNone = PInt n'
          \<and> \<bar>n' - 50\<bar> \<le> 1"
    unfolding ls by (simp only: refl if_True)
  from p b have "\<exists>params e'.
      gen_control_brightness_params ?r 200 = Inr params
    \<and> get_brightess (merge ?r [(''itemData'', PDict [(''params'', PDict params)])]) = Some e'
    \<and> \<bar>e' - 200\<bar> \<le> 1"
    by (elim exE conjE) (intro exI conjI)
  with a' show ?thesis by (rule conjI)
qed


section \<open>The base adapter\<close>

text \<open>
  Claim C7. For an adapter whose uiid is in the multi-relay group (191),
  set-switch(true) produces \<^verbatim>\<open>{"switches": [...]}\<close> with exactly four records, outlet 0
  switched "on" and outlets 1, 2 and 3 switched "off".
\<close>

theorem gen_control_switch_params_four_relay:
  assumes "uiid_in uiid MULTIPLE_SINGLE_PROTOCOL_UIIDS"
  shows "gen_control_switch_params uiid True =
     [(''switches'',
       PList [PDict [(''switch'', PStr ''on''), (''outlet'', PInt 0)],
              PDict [(''switch'', PStr ''off''), (''outlet'', PInt 1)],
              PDict [(''switch'', PStr ''off''), (''outlet'', PInt 2)],
              PDict [(''switch'', PStr ''off''), (''outlet'', PInt 3)]])]"
  using assms by (simp add: gen_control_switch_params_def)

theorem gen_control_switch_params_four_relay_witness:
  "uiid_in (PInt 191) MULTIPLE_SINGLE_PROTOCOL_UIIDS
   \<and> gen_control_switch_params (PInt 191) True =
     [(''switches'',
       PList [PDict [(''switch'', PStr ''on''), (''outlet'', PInt 0)],
              PDict [(''switch'', PStr ''off''), (''outlet'', PInt 1)],
              PDict [(''switch'', PStr ''off''), (''outlet'', PInt 2)],
              PDict [(''switch'', PStr ''off''), (''outlet'', PInt 3)]])]"
proof -
  have h: "uiid_in (PInt 191) MULTIPLE_SINGLE_PROTOCOL_UIIDS"
    by (simp add: uiid_in_def MULTIPLE_SINGLE_PROTOCOL_UIIDS_def)
  from h gen_control_switch_params_four_relay [OF h] show ?thesis by simp
qed

text \<open>
  The readers of signal strength, temperature and humidity return \<^verbatim>\<open>None\<close> for a
  device that lacks the field; the battery reader has no such guard and passes the
  \<^verbatim>\<open>None\<close> it read to \<^verbatim>\<open>int()\<close>, which raises \<^verbatim>\<open>TypeError\<close>.
\<close>

lemma readers_absent_field:
  "deep_get (PDict device) [KStr ''itemData'', KStr ''params'', KStr ''rssi''] PNone = PNone
     \<Longrightarrow> get_rssi_value device = PNone"
  "deep_get (PDict device) [KStr ''itemData'', KStr ''params'', KStr ''temperature''] PNone = PNone
     \<Longrightarrow> get_temperature_value float_of_str div100_round1 device = Inr None"
  "deep_get (PDict device) [KStr ''itemData'', KStr ''params'', KStr ''humidity''] PNone = PNone
     \<Longrightarrow> get_humidity_value float_of_str div100_round1 device = Inr None"
  by (simp_all add: get_rssi_value_def get_temperature_value_def get_humidity_value_def)

lemma get_battery_value_absent_field:
  "deep_get (PDict device) [KStr ''itemData'', KStr ''params'', KStr ''battery''] PNone = PNone
     \<Longrightarrow> get_battery_value int_of_str device = Inl TypeError"
  by (simp add: get_battery_value_def)

text \<open>
  Claim C9. The generic numeric readers return \<^verbatim>\<open>None\<close> when the field is missing.
  On a device with empty params the readers of signal strength, temperature and
  humidity do; \<^verbatim>\<open>get_battery_value\<close> does not return at all: it raises
  \<^verbatim>\<open>TypeError\<close>.
\<close>

theorem get_battery_value_no_battery_field:
  "get_battery_value int_of_str [(''itemData'', PDict [(''params'', PDict [])])] = Inl TypeError
   \<and> get_rssi_value [(''itemData'', PDict [(''params'', PDict [])])] = PNone
   \<and> get_temperature_value float_of_str div100_round1
         [(''itemData'', PDict [(''params'', PDict [])])] = Inr None
   \<and> get_humidity_value float_of_str div100_round1
         [(''itemData'', PDict [(''params'', PDict [])])] = Inr None"
  by (simp add: get_battery_value_def get_rssi_value_def get_temperature_value_def
      get_humidity_value_def)

section \<open>Decimal rendering is injective\<close>

lemma below_ten:
  "(k::nat) < 10 \<Longrightarrow>
     k = 0 \<or> k = 1 \<or> k = 2 \<or> k = 3 \<or> k = 4 \<or> k = 5 \<or> k = 6 \<or> k = 7 \<or> k = 8 \<or> k = 9"
  by arith

lemma digit_val_digit_char: "digit_val (digit_char d) = d mod 10"
proof -
  have "d mod 10 < 10" by simp
  from below_ten [OF this] show ?thesis
    unfolding digit_char_def digit_val_def by (elim disjE) simp_all
qed

lemma digits_val_digits: "digits_val (digits n) = n"
proof (induction n rule: digits.induct)
  case (1 n)
  show ?case
  proof (cases "n < 10")
    case True
    then show ?thesis
      by (subst digits.simps) (simp add: digits_val_def digit_val_digit_char)
  next
    case False
    with 1 have "digits_val (digits (n div 10)) = n div 10" by simp
    with False show ?thesis
      by (subst digits.simps) (simp add: digits_val_def digit_val_digit_char)
  qed
qed

lemma digits_inj: "digits n = digits m \<Longrightarrow> n = m"
  by (metis digits_val_digits)

lemma digit_char_not_minus: "digit_char d \<noteq> CHR ''-''"
proof -
  have "d mod 10 < 10" by simp
  from below_ten [OF this] show ?thesis
    unfolding digit_char_def by (elim disjE) simp_all
qed

lemma hd_digits_not_minus: "digits n \<noteq> [] \<and> hd (digits n) \<noteq> CHR ''-''"
proof (induction n rule: digits.induct)
  case (1 n)
  show ?case
  proof (cases "n < 10")
    case True
    then show ?thesis by (subst (1 2) digits.simps) (simp add: digit_char_not_minus)
  next
    case False
    with 1 have "digits (n div 10) \<noteq> [] \<and> hd (digits (n div 10)) \<noteq> CHR ''-''" by simp
    with False show ?thesis by (subst (1 2) digits.simps) simp
  qed
qed

lemma str_int_inj: "str_int i = str_int j \<Longrightarrow> i = j"
proof -
  assume eq: "str_int i = str_int j"
  have neq: "CHR ''-'' # xs \<noteq> digits n" for xs n
    using hd_digits_not_minus [of n] by (cases "digits n") auto
  show "i = j"
  proof (cases "i < 0")
    case True
    show ?thesis
    proof (cases "j < 0")
      case j: True
      with True eq have "digits (nat (- i)) = digits (nat (- j))" by (simp add: str_int_def)
      then have "nat (- i) = nat (- j)" by (rule digits_inj)
      with True j show ?thesis by simp
    next
      case False
      with True eq neq [of "digits (nat (- i))" "nat j"] show ?thesis
        by (simp add: str_int_def)
    qed
  next
    case False
    show ?thesis
    proof (cases "j < 0")
      case True
      with False eq neq [of "digits (nat (- j))" "nat i"] show ?thesis
        by (simp add: str_int_def)
    next
      case j: False
      with False eq have "digits (nat i) = digits (nat j)" by (simp add: str_int_def)
      then have "nat i = nat j" by (rule digits_inj)
      with False j show ?thesis by simp
    qed
  qed
qed

section \<open>Pushes for unknown devices\<close>

lemma update_entity_state_unknown:
  "(\<forall>did. device_id = PStr did \<longrightarrow> map_of (data c) did = None) \<Longrightarrow>
     fst (update_entity_state c device_id params) = c"
  by (cases device_id) (simp_all add: update_entity_state_def)

lemma update_entity_available_unknown:
  "(\<forall>did. device_id = PStr did \<longrightarrow> map_of (data c) did = None) \<Longrightarrow>
     fst (update_entity_available c device_id online) = c"
  by (cases device_id) (simp_all add: update_entity_available_def)

lemma dispatch_action_client: "fst (fst (dispatch_action K s m)) = fst s"
  by (simp add: dispatch_action_def Let_def split: prod.splits sum.splits bool.splits)

lemma dispatch_action_unknown:
  assumes "\<forall>did. dict_get m ''deviceid'' PNone = PStr did \<longrightarrow> map_of (data (snd s)) did = None"
  shows "fst (dispatch_action K s m) = s"
proof -
  let ?d = "dict_get m ''deviceid'' PNone"
  have a: "c' = snd s" if "update_entity_state (snd s) ?d p = (c', e)" for p c' e
    using update_entity_state_unknown [OF assms, of p] that by simp
  have b: "c' = snd s" if "update_entity_available (snd s) ?d p = (c', e)" for p c' e
    using update_entity_available_unknown [OF assms, of p] that by simp
  show ?thesis
    unfolding dispatch_action_def Let_def
    by (auto split: prod.splits sum.splits bool.splits dest: a b)
qed


lemma handle_ws_message_unknown:
  assumes "\<forall>did. dict_get m ''deviceid'' PNone = PStr did \<longrightarrow> map_of (data c) did = None"
  shows "snd (fst (handle_ws_message K repr (w, c) (Some (PDict m)))) = c"
  using dispatch_action_unknown [of m "(resolve_pending w (py_str repr (dict_get m ''sequence'' PNone)) (PDict m), c)" K]
    assms
  by (simp add: handle_ws_message_def)

text \<open>
  Claim C10. A state push or an availability push for a device id that is not in the
  store leaves the coordinator exactly as it was: no entry is created or modified, no
  event handler is called and nothing is published. The callbacks return normally for
  a hashable id and raise \<^verbatim>\<open>TypeError\<close> for a list or a dict; the same holds when
  the push arrives through the message handler.
\<close>

theorem push_for_unknown_device_changes_nothing:
  assumes "\<forall>did. device_id = PStr did \<longrightarrow> map_of (data c) did = None"
  shows "update_entity_state c device_id params = (c, if hashable device_id then None else Some TypeError)
       \<and> update_entity_available c device_id online =
           (c, if hashable device_id then None else Some TypeError)
       \<and> (\<forall>K repr w m. dict_get m ''deviceid'' PNone = device_id \<longrightarrow>
            snd (fst (handle_ws_message K repr (w, c) (Some (PDict m)))) = c)"
proof -
  have "update_entity_state c device_id params =
          (c, if hashable device_id then None else Some TypeError)"
    using assms by (cases device_id) (simp_all add: update_entity_state_def)
  moreover have "update_entity_available c device_id online =
          (c, if hashable device_id then None else Some TypeError)"
    using assms by (cases device_id) (simp_all add: update_entity_available_def)
  moreover have "snd (fst (handle_ws_message K repr (w, c) (Some (PDict m)))) = c"
    if "dict_get m ''deviceid'' PNone = device_id" for K repr w m
    using assms that by (intro handle_ws_message_unknown) simp
  ultimately show ?thesis by blast
qed

theorem push_for_unknown_device_changes_nothing_witness:
  "map_of (data (new_coordinator\<lparr>data := [(''1000aaaaaa'', [(''itemData'', PDict [])])]\<rparr>))
     ''1000zzzzzz'' = None
   \<and> update_entity_state
       (new_coordinator\<lparr>data := [(''1000aaaaaa'', [(''itemData'', PDict [])])]\<rparr>)
       (PStr ''1000zzzzzz'') (PDict [(''switch'', PStr ''on'')])
     = (new_coordinator\<lparr>data := [(''1000aaaaaa'', [(''itemData'', PDict [])])]\<rparr>, None)
   \<and> update_entity_available
       (new_coordinator\<lparr>data := [(''1000aaaaaa'', [(''itemData'', PDict [])])]\<rparr>)
       (PStr ''1000zzzzzz'') (PBool False)
     = (new_coordinator\<lparr>data := [(''1000aaaaaa'', [(''itemData'', PDict [])])]\<rparr>, None)"
proof -
  let ?c = "new_coordinator\<lparr>data := [(''1000aaaaaa'', [(''itemData'', PDict [])])]\<rparr>"
  have h: "\<forall>did. PStr ''1000zzzzzz'' = PStr did \<longrightarrow> map_of (data ?c) did = None"
    by simp
  from push_for_unknown_device_changes_nothing [OF h] show ?thesis by simp
qed

section \<open>Commands and correlation ids\<close>

text \<open>
  While the flag is clear, \<^verbatim>\<open>control_device\<close> returns at once, for every device and
  params: the state is unchanged (no pending entry, no future, nothing sent), the
  coroutine does not wait, and the ack it returns, with error code -1, differs from
  every timeout ack.
\<close>

lemma control_device_flag_clear:
  assumes "\<not> is_connected w"
  shows "control_device K w now ewelink_device params send_ok = (w, Returned not_connected_ack)
       \<and> not_connected_ack =
           PDict [(''error'', PInt (- 1)), (''msg'', PStr ''ws not connect or device is not exist.'')]
       \<and> (\<forall>sequence. not_connected_ack \<noteq> timeout_ack sequence)"
  using assms
  by (simp add: control_device_def not_connected_ack_def timeout_ack_def split: option.splits)

text \<open>On a healthy connection the command is registered and sent, and the caller waits.\<close>

lemma control_device_connected:
  assumes "is_connected w" and "ws w"
  shows "control_device K w now (Some device) params True =
           (w\<lparr>futures := futures w @ [FPending],
              pending_responses := setitem (pending_responses w) (str_int now) (length (futures w)),
              sent := sent w @
                [[(''action'', PStr (WS_MSG_ACTION_UPDATE K)),
                  (''apikey'', deep_get (PDict device) [KStr ''itemData'', KStr ''apikey''] PNone),
                  (''deviceid'', deep_get (PDict device) [KStr ''itemData'', KStr ''deviceid''] PNone),
                  (''params'', params),
                  (''selfApikey'', api_key w),
                  (''sequence'', PStr (str_int now)),
                  (''userAgent'', PStr (WS_USER_AGENT K))]]\<rparr>,
            Awaiting (str_int now) (length (futures w)) 10)"
  using assms by (simp add: control_device_def Let_def)

lemma map_of_setitem: "map_of (setitem d k v) k' = (if k' = k then Some v else map_of d k')"
  by (simp add: setitem_def update_conv')

lemma map_of_pop: "map_of (pop d k) k' = (if k' = k then None else map_of d k')"
  by (simp add: pop_def delete_conv')

text \<open>
  Two commands issued at the same clock reading get the same sequence: the second
  registration replaces the entry of the first, whose future is still pending.
\<close>

theorem same_millisecond_overwrites:
  "(case control_device example_consts
           ((new_client (PStr ''k'') (PStr ''a'') (PStr ''t''))\<lparr>is_connected := True, ws := True\<rparr>)
           1700000000000 (Some [(''itemData'', PDict [(''deviceid'', PStr ''1000aaaaaa'')])])
           (PDict [(''switch'', PStr ''on'')]) True of
      (w1, step1) \<Rightarrow>
        (case control_device example_consts w1
                1700000000000 (Some [(''itemData'', PDict [(''deviceid'', PStr ''1000bbbbbb'')])])
                (PDict [(''switch'', PStr ''off'')]) True of
           (w2, step2) \<Rightarrow>
               step1 = Awaiting ''1700000000000'' 0 10
             \<and> step2 = Awaiting ''1700000000000'' 1 10
             \<and> futures w2 ! 0 = FPending
             \<and> map_of (pending_responses w1) ''1700000000000'' = Some 0
             \<and> map_of (pending_responses w2) ''1700000000000'' = Some 1
             \<and> pending_responses w2 = [(''1700000000000'', 1)]))"
proof -
  have s: "str_int 1700000000000 = ''1700000000000''"
    by (simp add: str_int_def digits.simps digit_char_def)
  show ?thesis
    by (simp add: control_device_def Let_def new_client_def s setitem_def)
qed

text \<open>
  Claim C6, amended. The correlation id is the decimal rendering of the clock reading
  in milliseconds. For two commands issued one after the other on a healthy
  connection, the ids are equal exactly when the clock readings are; when the
  readings differ both entries are in the pending table afterwards; and every entry
  under another id is left as it was.
\<close>

theorem correlation_ids_distinct_across_milliseconds:
  assumes "is_connected w" and "ws w"
    and "control_device K w now1 (Some device1) params1 True = (w1, step1)"
    and "control_device K w1 now2 (Some device2) params2 True = (w2, step2)"
  shows "step1 = Awaiting (str_int now1) (length (futures w)) 10
       \<and> step2 = Awaiting (str_int now2) (Suc (length (futures w))) 10
       \<and> (str_int now1 = str_int now2 \<longleftrightarrow> now1 = now2)
       \<and> (now1 \<noteq> now2 \<longrightarrow>
            map_of (pending_responses w2) (str_int now1) = Some (length (futures w))
          \<and> map_of (pending_responses w2) (str_int now2) = Some (Suc (length (futures w))))
       \<and> (\<forall>sq. sq \<noteq> str_int now1 \<and> sq \<noteq> str_int now2 \<longrightarrow>
            map_of (pending_responses w2) sq = map_of (pending_responses w) sq)"
proof -
  from assms(3) have w1: "w1 = w\<lparr>futures := futures w @ [FPending],
              pending_responses := setitem (pending_responses w) (str_int now1) (length (futures w)),
              sent := sent w @
                [[(''action'', PStr (WS_MSG_ACTION_UPDATE K)),
                  (''apikey'', deep_get (PDict device1) [KStr ''itemData'', KStr ''apikey''] PNone),
                  (''deviceid'', deep_get (PDict device1) [KStr ''itemData'', KStr ''deviceid''] PNone),
                  (''params'', params1),
                  (''selfApikey'', api_key w),
                  (''sequence'', PStr (str_int now1)),
                  (''userAgent'', PStr (WS_USER_AGENT K))]]\<rparr>"
    and s1: "step1 = Awaiting (str_int now1) (length (futures w)) 10"
    unfolding control_device_connected [OF assms(1,2)] by simp_all
  have c1: "is_connected w1" "ws w1" using assms(1,2) by (simp_all add: w1)
  from assms(4) have p2: "pending_responses w2 =
        setitem (pending_responses w1) (str_int now2) (length (futures w1))"
    and s2: "step2 = Awaiting (str_int now2) (length (futures w1)) 10"
    unfolding control_device_connected [OF c1] by auto
  have inj: "str_int now1 = str_int now2 \<longleftrightarrow> now1 = now2"
    using str_int_inj by blast
  show ?thesis
    using s1 s2 inj by (simp add: p2 w1 map_of_setitem)
qed

theorem correlation_ids_distinct_across_milliseconds_witness:
  "(case control_device example_consts
           ((new_client (PStr ''k'') (PStr ''a'') (PStr ''t''))\<lparr>is_connected := True, ws := True\<rparr>)
           1 (Some []) PNone True of
      (w1, step1) \<Rightarrow>
        (case control_device example_consts w1 2 (Some []) PNone True of
           (w2, step2) \<Rightarrow>
               step1 = Awaiting (str_int 1) 0 10
             \<and> step2 = Awaiting (str_int 2) 1 10
             \<and> map_of (pending_responses w2) (str_int 1) = Some 0
             \<and> map_of (pending_responses w2) (str_int 2) = Some 1))"
proof -
  let ?w = "(new_client (PStr ''k'') (PStr ''a'') (PStr ''t''))\<lparr>is_connected := True, ws := True\<rparr>"
  obtain w1 step1 where a: "control_device example_consts ?w 1 (Some []) PNone True = (w1, step1)"
    by (cases "control_device example_consts ?w 1 (Some []) PNone True")
  obtain w2 step2 where b: "control_device example_consts w1 2 (Some []) PNone True = (w2, step2)"
    by (cases "control_device example_consts w1 2 (Some []) PNone True")
  have h1: "is_connected ?w" and h2: "ws ?w" by simp_all
  have len: "length (futures ?w) = 0" by (simp add: new_client_def)
  from correlation_ids_distinct_across_milliseconds [OF h1 h2 a b]
  show ?thesis unfolding len by (simp add: a b)
qed

section \<open>Reconnect pacing\<close>

text \<open>Handling frames never touches the delay, the sleep log or the stop event.\<close>

lemma resolve_pending_pacing:
  "reconnect_delay_time (resolve_pending w sq r) = reconnect_delay_time w
   \<and> slept (resolve_pending w sq r) = slept w
   \<and> stop_event (resolve_pending w sq r) = stop_event w"
  by (simp add: resolve_pending_def set_result_def Let_def split: option.splits)

lemma handle_ws_message_client:
  "fst (fst (handle_ws_message K repr (w, c) msg)) =
     (case msg of
        Some (PDict m) \<Rightarrow> resolve_pending w (py_str repr (dict_get m ''sequence'' PNone)) (PDict m)
      | _ \<Rightarrow> w)"
  by (simp add: handle_ws_message_def dispatch_action_client split: option.splits pyval.splits)

lemma handle_ws_message_pacing:
  "reconnect_delay_time (fst (fst (handle_ws_message K repr (w, c) msg))) = reconnect_delay_time w
   \<and> slept (fst (fst (handle_ws_message K repr (w, c) msg))) = slept w
   \<and> stop_event (fst (fst (handle_ws_message K repr (w, c) msg))) = stop_event w"
  unfolding handle_ws_message_client
  by (simp add: resolve_pending_pacing split: option.splits pyval.splits)

lemma read_frames_pacing:
  "read_frames K repr frames (w, c) = ((w', c'), err) \<Longrightarrow>
     reconnect_delay_time w' = reconnect_delay_time w \<and> slept w' = slept w
     \<and> stop_event w' = stop_event w"
proof (induction frames arbitrary: w c)
  case Nil
  then show ?case by simp
next
  case (Cons fr frames)
  show ?case
  proof (cases fr)
    case (WS_TEXT payload)
    obtain w1 c1 e1 where h: "handle_ws_message K repr (w, c) payload = ((w1, c1), e1)"
      by (metis prod.exhaust)
    from handle_ws_message_pacing [of K repr w c payload] h
    have p: "reconnect_delay_time w1 = reconnect_delay_time w \<and> slept w1 = slept w
       \<and> stop_event w1 = stop_event w" by simp
    show ?thesis
    proof (cases e1)
      case None
      with Cons.prems WS_TEXT h have "read_frames K repr frames (w1, c1) = ((w', c'), err)"
        by simp
      from Cons.IH [OF this] p show ?thesis by simp
    next
      case (Some e)
      with Cons.prems WS_TEXT h have "w' = w1" by simp
      with p show ?thesis by simp
    qed
  next
    case WS_CLOSED
    with Cons.prems show ?thesis by simp
  next
    case WS_ERROR
    with Cons.prems show ?thesis by simp
  next
    case WS_OTHER
    with Cons.prems have "read_frames K repr frames (w, c) = ((w', c'), err)" by simp
    from Cons.IH [OF this] show ?thesis .
  qed
qed

lemma run_attempt_pacing:
  "run_attempt K repr a (w, c) = ((w', c'), err) \<Longrightarrow>
     reconnect_delay_time w' = reconnect_delay_time w \<and> slept w' = slept w
     \<and> stop_event w' = stop_event w"
proof (cases a)
  case Connect_failed
  assume "run_attempt K repr a (w, c) = ((w', c'), err)"
  with Connect_failed show ?thesis by simp
next
  case (Connect_raised e)
  assume "run_attempt K repr a (w, c) = ((w', c'), err)"
  with Connect_raised show ?thesis by simp
next
  case (Connected nonce now ts frames)
  assume r: "run_attempt K repr a (w, c) = ((w', c'), err)"
  let ?w0 = "w\<lparr>is_connected := True, ws := True,
                sent := sent w @ [user_online K w nonce now ts]\<rparr>"
  obtain w1 c1 e1 where f: "read_frames K repr frames (?w0, c) = ((w1, c1), e1)"
    by (metis prod.exhaust)
  from read_frames_pacing [OF f]
  have p: "reconnect_delay_time w1 = reconnect_delay_time w \<and> slept w1 = slept w
     \<and> stop_event w1 = stop_event w" by simp
  from r Connected f have "w' = w1 \<or> w' = w1\<lparr>is_connected := False\<rparr>"
    by (cases e1) auto
  with p show ?thesis by auto
qed

lemma pace_Suc: "min 60 (pace n + 5) = pace (Suc n)"
  by (simp add: pace_def)

lemma reconnect_cycles_pacing:
  "reconnect_delay_time w = pace n \<Longrightarrow>
   reconnect_cycles K repr cycles (w, c) = ((w', c'), st) \<Longrightarrow>
   \<exists>m \<le> length cycles.
       slept w' = slept w @ map pace [n..<n + m]
     \<and> reconnect_delay_time w' = pace (n + m)
     \<and> (st = Looping \<longrightarrow> m = length cycles)"
proof (induction cycles arbitrary: w c n)
  case Nil
  then show ?case by simp
next
  case (Cons cy rest)
  show ?case
  proof (cases "stop_event w")
    case True
    with Cons.prems show ?thesis by (intro exI [of _ 0]) auto
  next
    case False
    obtain w1 c1 e1 where a: "run_attempt K repr (attempt cy) (w\<lparr>is_connected := False\<rparr>, c)
        = ((w1, c1), e1)"
      by (metis prod.exhaust)
    from run_attempt_pacing [OF a]
    have p: "reconnect_delay_time w1 = pace n" "slept w1 = slept w" "stop_event w1 = stop_event w"
      using Cons.prems(1) by simp_all
    show ?thesis
    proof (cases e1)
      case (Some e)
      with Cons.prems(2) False a have "w' = w1" "st = Crashed e" by simp_all
      with p show ?thesis by (intro exI [of _ 0]) simp
    next
      case None
      show ?thesis
      proof (cases "stop_requested cy")
        case True
        with Cons.prems(2) False a None have "w' = w1\<lparr>stop_event := True\<rparr>" "st = Stopped"
          by simp_all
        with p show ?thesis by (intro exI [of _ 0]) simp
      next
        case sr: False
        let ?w2 = "w1\<lparr>slept := slept w1 @ [reconnect_delay_time w1],
                      reconnect_delay_time := min 60 (reconnect_delay_time w1 + 5)\<rparr>"
        from Cons.prems(2) False a None sr p(3)
        have r: "reconnect_cycles K repr rest (?w2, c1) = ((w', c'), st)" by simp
        have d: "reconnect_delay_time ?w2 = pace (Suc n)" using p(1) by (simp add: pace_Suc)
        from Cons.IH [OF d r] obtain m where m: "m \<le> length rest"
          "slept w' = slept ?w2 @ map pace [Suc n..<Suc n + m]"
          "reconnect_delay_time w' = pace (Suc n + m)"
          "st = Looping \<longrightarrow> m = length rest"
          by blast
        have u: "[n..<n + Suc m] = n # [Suc n..<Suc n + m]"
          by (simp add: upt_conv_Cons del: upt_Suc)
        have "slept w' = slept w @ map pace [n..<n + Suc m]"
          unfolding u using m(2) p by simp
        with m show ?thesis by (intro exI [of _ "Suc m"]) simp
      qed
    qed
  qed
qed


lemma sorted_pace: "sorted (map pace [n..<n + m])"
proof -
  have "sorted_wrt (<) [n..<n + m]" by (rule sorted_wrt_upt)
  then have "sorted_wrt (\<lambda>x y. pace x \<le> pace y) [n..<n + m]"
    by (rule sorted_wrt_mono_rel [rotated]) (simp add: pace_def)
  then show ?thesis by (simp add: sorted_map)
qed

text \<open>
  Claim C3, amended. The delay is set to 5 seconds when the reconnect loop is entered,
  whatever it was before; within the loop every completed pass, whether its attempt
  failed or its connection succeeded and ended, sleeps the current delay and then
  raises it by 5 seconds up to the cap of 60. So the sleeps of a run are
  5, 10, 15, ... capped at 60: non-decreasing, between 5 and 60, and never reset
  while the loop runs.
\<close>

theorem reconnect_delay_pacing:
  assumes "connect_and_reconnect K repr cycles (w, c) = ((w', c'), st)"
  shows "\<exists>m. m \<le> length cycles
         \<and> slept w' = slept w @ map (\<lambda>k. min 60 (5 + 5 * int k)) [0..<m]
         \<and> reconnect_delay_time w' = min 60 (5 + 5 * int m)
         \<and> (st = Looping \<longrightarrow> m = length cycles)
         \<and> sorted (drop (length (slept w)) (slept w'))
         \<and> (\<forall>d \<in> set (drop (length (slept w)) (slept w')). 5 \<le> d \<and> d \<le> 60)"
proof -
  have d: "reconnect_delay_time (w\<lparr>reconnect_delay_time := 5\<rparr>) = pace 0"
    by (simp add: pace_def)
  from assms have "reconnect_cycles K repr cycles (w\<lparr>reconnect_delay_time := 5\<rparr>, c)
      = ((w', c'), st)"
    by (simp add: connect_and_reconnect_def)
  from reconnect_cycles_pacing [OF d this]
  obtain m where m: "m \<le> length cycles" "slept w' = slept w @ map pace [0..<m]"
    "reconnect_delay_time w' = pace m" "st = Looping \<longrightarrow> m = length cycles"
    by auto
  have p: "pace = (\<lambda>k. min 60 (5 + 5 * int k))" by (rule ext) (simp add: pace_def)
  have s: "sorted (drop (length (slept w)) (slept w'))"
    using sorted_pace [of 0 m] by (simp add: m(2))
  have b: "\<forall>d \<in> set (drop (length (slept w)) (slept w')). 5 \<le> d \<and> d \<le> 60"
    by (auto simp: m(2) pace_def)
  from m s b show ?thesis unfolding p by blast
qed

text \<open>
  The delay is not reset when a fresh attempt is initiated: after a first pass whose
  connection succeeded, the second attempt is made with a delay of 10 seconds.
\<close>

theorem delay_not_reset_after_connection:
  "(case connect_and_reconnect example_consts (\<lambda>v. [])
           [\<lparr>attempt = Connected ''a1b2c3d4'' 1700000000000 1700000000 [WS_CLOSED],
             stop_requested = False\<rparr>,
            \<lparr>attempt = Connect_failed, stop_requested = False\<rparr>]
           (new_client (PStr ''k'') (PStr ''a'') (PStr ''t''), new_coordinator) of
      ((w', c'), st) \<Rightarrow> st = Looping \<and> slept w' = [5, 10] \<and> reconnect_delay_time w' = 15)"
  by (simp add: connect_and_reconnect_def new_client_def new_coordinator_def)

theorem reconnect_delay_pacing_witness:
  "slept (fst (fst (connect_and_reconnect example_consts (\<lambda>v. [])
           [\<lparr>attempt = Connect_failed, stop_requested = False\<rparr>,
            \<lparr>attempt = Connect_failed, stop_requested = False\<rparr>,
            \<lparr>attempt = Connect_failed, stop_requested = False\<rparr>]
           (new_client (PStr ''k'') (PStr ''a'') (PStr ''t''), new_coordinator)))) = [5, 10, 15]
   \<and> reconnect_delay_time (fst (fst (connect_and_reconnect example_consts (\<lambda>v. [])
           [\<lparr>attempt = Connect_failed, stop_requested = False\<rparr>,
            \<lparr>attempt = Connect_failed, stop_requested = False\<rparr>,
            \<lparr>attempt = Connect_failed, stop_requested = False\<rparr>]
           (new_client (PStr ''k'') (PStr ''a'') (PStr ''t''), new_coordinator)))) = 20"
proof -
  let ?cycles = "[\<lparr>attempt = Connect_failed, stop_requested = False\<rparr>,
            \<lparr>attempt = Connect_failed, stop_requested = False\<rparr>,
            \<lparr>attempt = Connect_failed, stop_requested = False\<rparr>]"
  let ?w = "new_client (PStr ''k'') (PStr ''a'') (PStr ''t'')"
  let ?run = "connect_and_reconnect example_consts (\<lambda>v. []) ?cycles (?w, new_coordinator)"
  obtain w' c' st where r: "?run = ((w', c'), st)" by (metis prod.exhaust)
  have "snd ?run = Looping"
    by (simp add: connect_and_reconnect_def new_client_def)
  with r have st: "st = Looping" by simp
  have e: "slept ?w = []" by (simp add: new_client_def)
  from reconnect_delay_pacing [OF r] st
  have "slept w' = slept ?w @ [5, 10, 15] \<and> reconnect_delay_time w' = 20"
    by auto
  then have "slept w' = [5, 10, 15] \<and> reconnect_delay_time w' = 20"
    by (simp add: e)
  then show ?thesis by (simp add: r)
qed


section \<open>The connection flag\<close>

text \<open>Handling frames does not touch the flag that guards \<^verbatim>\<open>control_device\<close>.\<close>

lemma resolve_pending_is_connected:
  "is_connected (resolve_pending w sq r) = is_connected w"
  by (simp add: resolve_pending_def set_result_def Let_def split: option.splits)

lemma read_frames_is_connected:
  "read_frames K repr frames (w, c) = ((w', c'), err) \<Longrightarrow> is_connected w' = is_connected w"
proof (induction frames arbitrary: w c)
  case Nil
  then show ?case by simp
next
  case (Cons fr frames)
  show ?case
  proof (cases fr)
    case (WS_TEXT payload)
    obtain w1 c1 e1 where h: "handle_ws_message K repr (w, c) payload = ((w1, c1), e1)"
      by (metis prod.exhaust)
    from handle_ws_message_client [of K repr w c payload] h
    have w1: "is_connected w1 = is_connected w"
      by (auto simp: resolve_pending_is_connected split: option.splits pyval.splits)
    show ?thesis
    proof (cases e1)
      case None
      with Cons.prems WS_TEXT h have "read_frames K repr frames (w1, c1) = ((w', c'), err)"
        by simp
      from Cons.IH [OF this] w1 show ?thesis by simp
    next
      case (Some e)
      with Cons.prems WS_TEXT h w1 show ?thesis by simp
    qed
  next
    case WS_CLOSED
    with Cons.prems show ?thesis by simp
  next
    case WS_ERROR
    with Cons.prems show ?thesis by simp
  next
    case WS_OTHER
    with Cons.prems Cons.IH show ?thesis by simp
  qed
qed

text \<open>
  A session that ends in an exception of the message handler leaves the flag set;
  one that ends in order clears it.
\<close>

lemma run_attempt_is_connected:
  "run_attempt K repr (Connected nonce now ts frames) (w, c) = ((w', c'), err) \<Longrightarrow>
     is_connected w' = (err \<noteq> None)"
proof -
  assume a: "run_attempt K repr (Connected nonce now ts frames) (w, c) = ((w', c'), err)"
  obtain w1 c1 e1 where r: "read_frames K repr frames
             (w\<lparr>is_connected := True, ws := True,
                sent := sent w @ [user_online K w nonce now ts]\<rparr>, c) = ((w1, c1), e1)"
    by (metis prod.exhaust)
  from read_frames_is_connected [OF r] have "is_connected w1" by simp
  with a r show ?thesis by (cases e1) auto
qed

text \<open>
  Claim C5. A command issued while the client is not connected is to return the
  error -1 ack at once and to register nothing. The guard reads the flag, which the
  loop clears at the top of every pass and after a session that ends in order, but not
  when a session ends in an exception. Here the server sends a JSON array: the handler
  raises \<^verbatim>\<open>AttributeError\<close>, the loop is over and the flag is still set. A command
  issued then passes the guard and registers a pending entry and a future; it raises
  when the dead socket refuses the frame, and waits for the timeout if the frame is
  accepted. In neither case does the caller get the error -1 ack.
\<close>

theorem control_device_after_failed_session:
  "(case connect_and_reconnect example_consts (\<lambda>v. [])
           [\<lparr>attempt = Connected ''a1b2c3d4'' 1700000000000 1700000000
                         [WS_TEXT (Some (PList []))],
             stop_requested = False\<rparr>]
           (new_client (PStr ''k'') (PStr ''a'') (PStr ''t''), new_coordinator) of
      ((w, c), st) \<Rightarrow>
          st = Crashed AttributeError
        \<and> is_connected w
        \<and> pending_responses w = []
        \<and> (case control_device example_consts w 1700000005000
                   (Some [(''itemData'', PDict [(''deviceid'', PStr ''1000aaaaaa'')])])
                   (PDict [(''switch'', PStr ''on'')]) False of
             (w1, step) \<Rightarrow>
                 step = Raised ConnectionError
               \<and> pending_responses w1 = [(''1700000005000'', 0)]
               \<and> futures w1 = [FPending])
        \<and> (case control_device example_consts w 1700000005000
                   (Some [(''itemData'', PDict [(''deviceid'', PStr ''1000aaaaaa'')])])
                   (PDict [(''switch'', PStr ''on'')]) True of
             (w1, step) \<Rightarrow>
                 step = Awaiting ''1700000005000'' 0 10
               \<and> pending_responses w1 = [(''1700000005000'', 0)]
               \<and> length (sent w1) = Suc (length (sent w))))"
proof -
  have s: "str_int 1700000005000 = ''1700000005000''"
    by (simp add: str_int_def digits.simps digit_char_def)
  show ?thesis
    by (simp add: connect_and_reconnect_def new_client_def new_coordinator_def
        handle_ws_message_def control_device_def Let_def s setitem_def)
qed

section \<open>Timeouts\<close>






text \<open>
  Every operation of the client keeps the pending table referring to existing futures,
  and a new client has an empty table.
\<close>

lemma pending_ok_new_client: "pending_ok (new_client key app token)"
  by (simp add: pending_ok_def new_client_def)

lemma pending_ok_control_device:
  "pending_ok w \<Longrightarrow> control_device K w now ewelink_device params send_ok = (w', step)
     \<Longrightarrow> pending_ok w'"
  by (auto simp: pending_ok_def control_device_def Let_def map_of_setitem less_Suc_eq
      split: option.splits if_splits)

lemma pending_ok_resolve_pending: "pending_ok w \<Longrightarrow> pending_ok (resolve_pending w sq r)"
  by (auto simp: pending_ok_def resolve_pending_def set_result_def Let_def map_of_pop
      split: option.splits if_splits)

lemma pending_ok_handle_ws_message:
  "pending_ok w \<Longrightarrow> pending_ok (fst (fst (handle_ws_message K repr (w, c) msg)))"
  unfolding handle_ws_message_client
  by (simp add: pending_ok_resolve_pending split: option.splits pyval.splits)

lemma pending_ok_read_frames:
  "pending_ok w \<Longrightarrow> read_frames K repr frames (w, c) = ((w', c'), err) \<Longrightarrow> pending_ok w'"
proof (induction frames arbitrary: w c)
  case Nil
  then show ?case by simp
next
  case (Cons fr frames)
  show ?case
  proof (cases fr)
    case (WS_TEXT payload)
    obtain w1 c1 e1 where h: "handle_ws_message K repr (w, c) payload = ((w1, c1), e1)"
      by (metis prod.exhaust)
    from pending_ok_handle_ws_message [OF Cons.prems(1), of K repr c payload] h
    have a1: "pending_ok w1" by simp
    show ?thesis
    proof (cases e1)
      case None
      with Cons.prems WS_TEXT h have "read_frames K repr frames (w1, c1) = ((w', c'), err)"
        by simp
      from Cons.IH [OF a1 this] show ?thesis .
    next
      case (Some e)
      with Cons.prems WS_TEXT h have "w' = w1" by simp
      with a1 show ?thesis by simp
    qed
  next
    case WS_CLOSED
    with Cons.prems show ?thesis by simp
  next
    case WS_ERROR
    with Cons.prems show ?thesis by simp
  next
    case WS_OTHER
    with Cons.prems have "read_frames K repr frames (w, c) = ((w', c'), err)" by simp
    from Cons.IH [OF Cons.prems(1) this] show ?thesis .
  qed
qed

lemma pending_ok_wait_for_timeout: "pending_ok w \<Longrightarrow> pending_ok (wait_for_timeout w f)"
  by (simp add: pending_ok_def wait_for_timeout_def cancel_def)

lemma pending_ok_control_device_resume:
  "pending_ok w \<Longrightarrow> control_device_resume w sq f = Some (w', r) \<Longrightarrow> pending_ok w'"
  by (auto simp: pending_ok_def control_device_resume_def map_of_pop
      split: if_splits future.splits)







end
